theory Spec2Isabelle
  imports Main "HOL-Library.Sublist"
begin

section \<open>Text\<close>

text \<open>
  A Python \<open>str\<close> is a sequence of Unicode code points, so texts are lists of code
  points. Byte strings (the raw lines of an HTTP response) are \<open>string\<close>, whose
  characters are bytes. \<open>asc\<close> turns an ASCII literal into a text.
\<close>

type_synonym ustr = "nat list"

definition asc :: "string \<Rightarrow> ustr" where
  "asc s = map of_char s"

text \<open>
  \<open>str.isspace\<close> on one code point; the regular-expression class \<open>\s\<close> of a
  \<open>str\<close> pattern and \<open>str.strip()\<close> use the same set.
\<close>

definition is_space :: "nat \<Rightarrow> bool" where
  "is_space c = (c \<in> set [9, 10, 11, 12, 13, 28, 29, 30, 31, 32, 133, 160, 5760,
     8192, 8193, 8194, 8195, 8196, 8197, 8198, 8199, 8200, 8201, 8202,
     8232, 8233, 8239, 8287, 12288])"

text \<open>
  The word characters \<open>\w\<close> of a \<open>str\<close> pattern: \<open>[a-zA-Z0-9_]\<close> and every
  code point above 127 that \<open>str.isalnum\<close> accepts. The ranges above 127 are those of
  the Unicode 14 character database of CPython 3.11.
\<close>

definition word_ranges :: "(nat \<times> nat) list" where
  "word_ranges = [
    (170, 170), (178, 179), (181, 181), (185, 186), (188, 190), (192, 214), (216, 246),
    (248, 705), (710, 721), (736, 740), (748, 748), (750, 750), (880, 884), (886, 887),
    (890, 893), (895, 895), (902, 902), (904, 906), (908, 908), (910, 929), (931, 1013),
    (1015, 1153), (1162, 1327), (1329, 1366), (1369, 1369), (1376, 1416), (1488, 1514),
    (1519, 1522), (1568, 1610), (1632, 1641), (1646, 1647), (1649, 1747), (1749, 1749),
    (1765, 1766), (1774, 1788), (1791, 1791), (1808, 1808), (1810, 1839), (1869, 1957),
    (1969, 1969), (1984, 2026), (2036, 2037), (2042, 2042), (2048, 2069), (2074, 2074),
    (2084, 2084), (2088, 2088), (2112, 2136), (2144, 2154), (2160, 2183), (2185, 2190),
    (2208, 2249), (2308, 2361), (2365, 2365), (2384, 2384), (2392, 2401), (2406, 2415),
    (2417, 2432), (2437, 2444), (2447, 2448), (2451, 2472), (2474, 2480), (2482, 2482),
    (2486, 2489), (2493, 2493), (2510, 2510), (2524, 2525), (2527, 2529), (2534, 2545),
    (2548, 2553), (2556, 2556), (2565, 2570), (2575, 2576), (2579, 2600), (2602, 2608),
    (2610, 2611), (2613, 2614), (2616, 2617), (2649, 2652), (2654, 2654), (2662, 2671),
    (2674, 2676), (2693, 2701), (2703, 2705), (2707, 2728), (2730, 2736), (2738, 2739),
    (2741, 2745), (2749, 2749), (2768, 2768), (2784, 2785), (2790, 2799), (2809, 2809),
    (2821, 2828), (2831, 2832), (2835, 2856), (2858, 2864), (2866, 2867), (2869, 2873),
    (2877, 2877), (2908, 2909), (2911, 2913), (2918, 2927), (2929, 2935), (2947, 2947),
    (2949, 2954), (2958, 2960), (2962, 2965), (2969, 2970), (2972, 2972), (2974, 2975),
    (2979, 2980), (2984, 2986), (2990, 3001), (3024, 3024), (3046, 3058), (3077, 3084),
    (3086, 3088), (3090, 3112), (3114, 3129), (3133, 3133), (3160, 3162), (3165, 3165),
    (3168, 3169), (3174, 3183), (3192, 3198), (3200, 3200), (3205, 3212), (3214, 3216),
    (3218, 3240), (3242, 3251), (3253, 3257), (3261, 3261), (3293, 3294), (3296, 3297),
    (3302, 3311), (3313, 3314), (3332, 3340), (3342, 3344), (3346, 3386), (3389, 3389),
    (3406, 3406), (3412, 3414), (3416, 3425), (3430, 3448), (3450, 3455), (3461, 3478),
    (3482, 3505), (3507, 3515), (3517, 3517), (3520, 3526), (3558, 3567), (3585, 3632),
    (3634, 3635), (3648, 3654), (3664, 3673), (3713, 3714), (3716, 3716), (3718, 3722),
    (3724, 3747), (3749, 3749), (3751, 3760), (3762, 3763), (3773, 3773), (3776, 3780),
    (3782, 3782), (3792, 3801), (3804, 3807), (3840, 3840), (3872, 3891), (3904, 3911),
    (3913, 3948), (3976, 3980), (4096, 4138), (4159, 4169), (4176, 4181), (4186, 4189),
    (4193, 4193), (4197, 4198), (4206, 4208), (4213, 4225), (4238, 4238), (4240, 4249),
    (4256, 4293), (4295, 4295), (4301, 4301), (4304, 4346), (4348, 4680), (4682, 4685),
    (4688, 4694), (4696, 4696), (4698, 4701), (4704, 4744), (4746, 4749), (4752, 4784),
    (4786, 4789), (4792, 4798), (4800, 4800), (4802, 4805), (4808, 4822), (4824, 4880),
    (4882, 4885), (4888, 4954), (4969, 4988), (4992, 5007), (5024, 5109), (5112, 5117),
    (5121, 5740), (5743, 5759), (5761, 5786), (5792, 5866), (5870, 5880), (5888, 5905),
    (5919, 5937), (5952, 5969), (5984, 5996), (5998, 6000), (6016, 6067), (6103, 6103),
    (6108, 6108), (6112, 6121), (6128, 6137), (6160, 6169), (6176, 6264), (6272, 6276),
    (6279, 6312), (6314, 6314), (6320, 6389), (6400, 6430), (6470, 6509), (6512, 6516),
    (6528, 6571), (6576, 6601), (6608, 6618), (6656, 6678), (6688, 6740), (6784, 6793),
    (6800, 6809), (6823, 6823), (6917, 6963), (6981, 6988), (6992, 7001), (7043, 7072),
    (7086, 7141), (7168, 7203), (7232, 7241), (7245, 7293), (7296, 7304), (7312, 7354),
    (7357, 7359), (7401, 7404), (7406, 7411), (7413, 7414), (7418, 7418), (7424, 7615),
    (7680, 7957), (7960, 7965), (7968, 8005), (8008, 8013), (8016, 8023), (8025, 8025),
    (8027, 8027), (8029, 8029), (8031, 8061), (8064, 8116), (8118, 8124), (8126, 8126),
    (8130, 8132), (8134, 8140), (8144, 8147), (8150, 8155), (8160, 8172), (8178, 8180),
    (8182, 8188), (8304, 8305), (8308, 8313), (8319, 8329), (8336, 8348), (8450, 8450),
    (8455, 8455), (8458, 8467), (8469, 8469), (8473, 8477), (8484, 8484), (8486, 8486),
    (8488, 8488), (8490, 8493), (8495, 8505), (8508, 8511), (8517, 8521), (8526, 8526),
    (8528, 8585), (9312, 9371), (9450, 9471), (10102, 10131), (11264, 11492), (11499, 11502),
    (11506, 11507), (11517, 11517), (11520, 11557), (11559, 11559), (11565, 11565),
    (11568, 11623), (11631, 11631), (11648, 11670), (11680, 11686), (11688, 11694),
    (11696, 11702), (11704, 11710), (11712, 11718), (11720, 11726), (11728, 11734),
    (11736, 11742), (11823, 11823), (12293, 12295), (12321, 12329), (12337, 12341),
    (12344, 12348), (12353, 12438), (12445, 12447), (12449, 12538), (12540, 12543),
    (12549, 12591), (12593, 12686), (12690, 12693), (12704, 12735), (12784, 12799),
    (12832, 12841), (12872, 12879), (12881, 12895), (12928, 12937), (12977, 12991),
    (13312, 19903), (19968, 42124), (42192, 42237), (42240, 42508), (42512, 42539),
    (42560, 42606), (42623, 42653), (42656, 42735), (42775, 42783), (42786, 42888),
    (42891, 42954), (42960, 42961), (42963, 42963), (42965, 42969), (42994, 43009),
    (43011, 43013), (43015, 43018), (43020, 43042), (43056, 43061), (43072, 43123),
    (43138, 43187), (43216, 43225), (43250, 43255), (43259, 43259), (43261, 43262),
    (43264, 43301), (43312, 43334), (43360, 43388), (43396, 43442), (43471, 43481),
    (43488, 43492), (43494, 43518), (43520, 43560), (43584, 43586), (43588, 43595),
    (43600, 43609), (43616, 43638), (43642, 43642), (43646, 43695), (43697, 43697),
    (43701, 43702), (43705, 43709), (43712, 43712), (43714, 43714), (43739, 43741),
    (43744, 43754), (43762, 43764), (43777, 43782), (43785, 43790), (43793, 43798),
    (43808, 43814), (43816, 43822), (43824, 43866), (43868, 43881), (43888, 44002),
    (44016, 44025), (44032, 55203), (55216, 55238), (55243, 55291), (63744, 64109),
    (64112, 64217), (64256, 64262), (64275, 64279), (64285, 64285), (64287, 64296),
    (64298, 64310), (64312, 64316), (64318, 64318), (64320, 64321), (64323, 64324),
    (64326, 64433), (64467, 64829), (64848, 64911), (64914, 64967), (65008, 65019),
    (65136, 65140), (65142, 65276), (65296, 65305), (65313, 65338), (65345, 65370),
    (65382, 65470), (65474, 65479), (65482, 65487), (65490, 65495), (65498, 65500),
    (65536, 65547), (65549, 65574), (65576, 65594), (65596, 65597), (65599, 65613),
    (65616, 65629), (65664, 65786), (65799, 65843), (65856, 65912), (65930, 65931),
    (66176, 66204), (66208, 66256), (66273, 66299), (66304, 66339), (66349, 66378),
    (66384, 66421), (66432, 66461), (66464, 66499), (66504, 66511), (66513, 66517),
    (66560, 66717), (66720, 66729), (66736, 66771), (66776, 66811), (66816, 66855),
    (66864, 66915), (66928, 66938), (66940, 66954), (66956, 66962), (66964, 66965),
    (66967, 66977), (66979, 66993), (66995, 67001), (67003, 67004), (67072, 67382),
    (67392, 67413), (67424, 67431), (67456, 67461), (67463, 67504), (67506, 67514),
    (67584, 67589), (67592, 67592), (67594, 67637), (67639, 67640), (67644, 67644),
    (67647, 67669), (67672, 67702), (67705, 67742), (67751, 67759), (67808, 67826),
    (67828, 67829), (67835, 67867), (67872, 67897), (67968, 68023), (68028, 68047),
    (68050, 68096), (68112, 68115), (68117, 68119), (68121, 68149), (68160, 68168),
    (68192, 68222), (68224, 68255), (68288, 68295), (68297, 68324), (68331, 68335),
    (68352, 68405), (68416, 68437), (68440, 68466), (68472, 68497), (68521, 68527),
    (68608, 68680), (68736, 68786), (68800, 68850), (68858, 68899), (68912, 68921),
    (69216, 69246), (69248, 69289), (69296, 69297), (69376, 69415), (69424, 69445),
    (69457, 69460), (69488, 69505), (69552, 69579), (69600, 69622), (69635, 69687),
    (69714, 69743), (69745, 69746), (69749, 69749), (69763, 69807), (69840, 69864),
    (69872, 69881), (69891, 69926), (69942, 69951), (69956, 69956), (69959, 69959),
    (69968, 70002), (70006, 70006), (70019, 70066), (70081, 70084), (70096, 70106),
    (70108, 70108), (70113, 70132), (70144, 70161), (70163, 70187), (70272, 70278),
    (70280, 70280), (70282, 70285), (70287, 70301), (70303, 70312), (70320, 70366),
    (70384, 70393), (70405, 70412), (70415, 70416), (70419, 70440), (70442, 70448),
    (70450, 70451), (70453, 70457), (70461, 70461), (70480, 70480), (70493, 70497),
    (70656, 70708), (70727, 70730), (70736, 70745), (70751, 70753), (70784, 70831),
    (70852, 70853), (70855, 70855), (70864, 70873), (71040, 71086), (71128, 71131),
    (71168, 71215), (71236, 71236), (71248, 71257), (71296, 71338), (71352, 71352),
    (71360, 71369), (71424, 71450), (71472, 71483), (71488, 71494), (71680, 71723),
    (71840, 71922), (71935, 71942), (71945, 71945), (71948, 71955), (71957, 71958),
    (71960, 71983), (71999, 71999), (72001, 72001), (72016, 72025), (72096, 72103),
    (72106, 72144), (72161, 72161), (72163, 72163), (72192, 72192), (72203, 72242),
    (72250, 72250), (72272, 72272), (72284, 72329), (72349, 72349), (72368, 72440),
    (72704, 72712), (72714, 72750), (72768, 72768), (72784, 72812), (72818, 72847),
    (72960, 72966), (72968, 72969), (72971, 73008), (73030, 73030), (73040, 73049),
    (73056, 73061), (73063, 73064), (73066, 73097), (73112, 73112), (73120, 73129),
    (73440, 73458), (73648, 73648), (73664, 73684), (73728, 74649), (74752, 74862),
    (74880, 75075), (77712, 77808), (77824, 78894), (82944, 83526), (92160, 92728),
    (92736, 92766), (92768, 92777), (92784, 92862), (92864, 92873), (92880, 92909),
    (92928, 92975), (92992, 92995), (93008, 93017), (93019, 93025), (93027, 93047),
    (93053, 93071), (93760, 93846), (93952, 94026), (94032, 94032), (94099, 94111),
    (94176, 94177), (94179, 94179), (94208, 100343), (100352, 101589), (101632, 101640),
    (110576, 110579), (110581, 110587), (110589, 110590), (110592, 110882), (110928, 110930),
    (110948, 110951), (110960, 111355), (113664, 113770), (113776, 113788), (113792, 113800),
    (113808, 113817), (119520, 119539), (119648, 119672), (119808, 119892), (119894, 119964),
    (119966, 119967), (119970, 119970), (119973, 119974), (119977, 119980), (119982, 119993),
    (119995, 119995), (119997, 120003), (120005, 120069), (120071, 120074), (120077, 120084),
    (120086, 120092), (120094, 120121), (120123, 120126), (120128, 120132), (120134, 120134),
    (120138, 120144), (120146, 120485), (120488, 120512), (120514, 120538), (120540, 120570),
    (120572, 120596), (120598, 120628), (120630, 120654), (120656, 120686), (120688, 120712),
    (120714, 120744), (120746, 120770), (120772, 120779), (120782, 120831), (122624, 122654),
    (123136, 123180), (123191, 123197), (123200, 123209), (123214, 123214), (123536, 123565),
    (123584, 123627), (123632, 123641), (124896, 124902), (124904, 124907), (124909, 124910),
    (124912, 124926), (124928, 125124), (125127, 125135), (125184, 125251), (125259, 125259),
    (125264, 125273), (126065, 126123), (126125, 126127), (126129, 126132), (126209, 126253),
    (126255, 126269), (126464, 126467), (126469, 126495), (126497, 126498), (126500, 126500),
    (126503, 126503), (126505, 126514), (126516, 126519), (126521, 126521), (126523, 126523),
    (126530, 126530), (126535, 126535), (126537, 126537), (126539, 126539), (126541, 126543),
    (126545, 126546), (126548, 126548), (126551, 126551), (126553, 126553), (126555, 126555),
    (126557, 126557), (126559, 126559), (126561, 126562), (126564, 126564), (126567, 126570),
    (126572, 126578), (126580, 126583), (126585, 126588), (126590, 126590), (126592, 126601),
    (126603, 126619), (126625, 126627), (126629, 126633), (126635, 126651), (127232, 127244),
    (130032, 130041), (131072, 173791), (173824, 177976), (177984, 178205), (178208, 183969),
    (183984, 191456), (194560, 195101), (196608, 201546)]"

definition is_word :: "nat \<Rightarrow> bool" where
  "is_word c =
     (if c < 128
      then (48 \<le> c \<and> c \<le> 57) \<or> (65 \<le> c \<and> c \<le> 90) \<or> c = 95 \<or> (97 \<le> c \<and> c \<le> 122)
      else list_ex (\<lambda>r. fst r \<le> c \<and> c \<le> snd r) word_ranges)"

text \<open>
  \<open>str.lower()\<close>, with the tables of the Unicode 14 character database of CPython
  3.11. \<open>lower_runs\<close> lists the code points above 127 whose lower case is one
  other code point: an entry \<open>(lo, hi, step, img)\<close> maps \<open>lo\<close>, \<open>lo + step\<close>, ...
  up to \<open>hi\<close> to \<open>img\<close>, \<open>img + step\<close>, ... . U+0130 alone has a lower case of
  two code points. The Greek capital sigma, U+03A3, becomes the final sigma U+03C2 when
  a cased letter comes before it and none after it, case-ignorable characters
  being skipped on both sides, and U+03C3 otherwise.
\<close>

definition lower_runs :: "(nat \<times> nat \<times> nat \<times> nat) list" where
  "lower_runs = [
    (192, 214, 1, 224), (216, 222, 1, 248), (256, 302, 2, 257), (306, 310, 2, 307),
    (313, 327, 2, 314), (330, 374, 2, 331), (376, 376, 1, 255), (377, 381, 2, 378),
    (385, 385, 1, 595), (386, 388, 2, 387), (390, 390, 1, 596), (391, 391, 1, 392),
    (393, 394, 1, 598), (395, 395, 1, 396), (398, 398, 1, 477), (399, 399, 1, 601),
    (400, 400, 1, 603), (401, 401, 1, 402), (403, 403, 1, 608), (404, 404, 1, 611),
    (406, 406, 1, 617), (407, 407, 1, 616), (408, 408, 1, 409), (412, 412, 1, 623),
    (413, 413, 1, 626), (415, 415, 1, 629), (416, 420, 2, 417), (422, 422, 1, 640),
    (423, 423, 1, 424), (425, 425, 1, 643), (428, 428, 1, 429), (430, 430, 1, 648),
    (431, 431, 1, 432), (433, 434, 1, 650), (435, 437, 2, 436), (439, 439, 1, 658),
    (440, 440, 1, 441), (444, 444, 1, 445), (452, 452, 1, 454), (453, 453, 1, 454),
    (455, 455, 1, 457), (456, 456, 1, 457), (458, 458, 1, 460), (459, 475, 2, 460),
    (478, 494, 2, 479), (497, 497, 1, 499), (498, 500, 2, 499), (502, 502, 1, 405),
    (503, 503, 1, 447), (504, 542, 2, 505), (544, 544, 1, 414), (546, 562, 2, 547),
    (570, 570, 1, 11365), (571, 571, 1, 572), (573, 573, 1, 410), (574, 574, 1, 11366),
    (577, 577, 1, 578), (579, 579, 1, 384), (580, 580, 1, 649), (581, 581, 1, 652),
    (582, 590, 2, 583), (880, 882, 2, 881), (886, 886, 1, 887), (895, 895, 1, 1011),
    (902, 902, 1, 940), (904, 906, 1, 941), (908, 908, 1, 972), (910, 911, 1, 973),
    (913, 929, 1, 945), (931, 939, 1, 963), (975, 975, 1, 983), (984, 1006, 2, 985),
    (1012, 1012, 1, 952), (1015, 1015, 1, 1016), (1017, 1017, 1, 1010), (1018, 1018, 1, 1019),
    (1021, 1023, 1, 891), (1024, 1039, 1, 1104), (1040, 1071, 1, 1072), (1120, 1152, 2, 1121),
    (1162, 1214, 2, 1163), (1216, 1216, 1, 1231), (1217, 1229, 2, 1218), (1232, 1326, 2, 1233),
    (1329, 1366, 1, 1377), (4256, 4293, 1, 11520), (4295, 4295, 1, 11559),
    (4301, 4301, 1, 11565), (5024, 5103, 1, 43888), (5104, 5109, 1, 5112), (7312, 7354, 1, 4304),
    (7357, 7359, 1, 4349), (7680, 7828, 2, 7681), (7838, 7838, 1, 223), (7840, 7934, 2, 7841),
    (7944, 7951, 1, 7936), (7960, 7965, 1, 7952), (7976, 7983, 1, 7968), (7992, 7999, 1, 7984),
    (8008, 8013, 1, 8000), (8025, 8031, 2, 8017), (8040, 8047, 1, 8032), (8072, 8079, 1, 8064),
    (8088, 8095, 1, 8080), (8104, 8111, 1, 8096), (8120, 8121, 1, 8112), (8122, 8123, 1, 8048),
    (8124, 8124, 1, 8115), (8136, 8139, 1, 8050), (8140, 8140, 1, 8131), (8152, 8153, 1, 8144),
    (8154, 8155, 1, 8054), (8168, 8169, 1, 8160), (8170, 8171, 1, 8058), (8172, 8172, 1, 8165),
    (8184, 8185, 1, 8056), (8186, 8187, 1, 8060), (8188, 8188, 1, 8179), (8486, 8486, 1, 969),
    (8490, 8490, 1, 107), (8491, 8491, 1, 229), (8498, 8498, 1, 8526), (8544, 8559, 1, 8560),
    (8579, 8579, 1, 8580), (9398, 9423, 1, 9424), (11264, 11311, 1, 11312),
    (11360, 11360, 1, 11361), (11362, 11362, 1, 619), (11363, 11363, 1, 7549),
    (11364, 11364, 1, 637), (11367, 11371, 2, 11368), (11373, 11373, 1, 593),
    (11374, 11374, 1, 625), (11375, 11375, 1, 592), (11376, 11376, 1, 594),
    (11378, 11378, 1, 11379), (11381, 11381, 1, 11382), (11390, 11391, 1, 575),
    (11392, 11490, 2, 11393), (11499, 11501, 2, 11500), (11506, 11506, 1, 11507),
    (42560, 42604, 2, 42561), (42624, 42650, 2, 42625), (42786, 42798, 2, 42787),
    (42802, 42862, 2, 42803), (42873, 42875, 2, 42874), (42877, 42877, 1, 7545),
    (42878, 42886, 2, 42879), (42891, 42891, 1, 42892), (42893, 42893, 1, 613),
    (42896, 42898, 2, 42897), (42902, 42920, 2, 42903), (42922, 42922, 1, 614),
    (42923, 42923, 1, 604), (42924, 42924, 1, 609), (42925, 42925, 1, 620),
    (42926, 42926, 1, 618), (42928, 42928, 1, 670), (42929, 42929, 1, 647),
    (42930, 42930, 1, 669), (42931, 42931, 1, 43859), (42932, 42946, 2, 42933),
    (42948, 42948, 1, 42900), (42949, 42949, 1, 642), (42950, 42950, 1, 7566),
    (42951, 42953, 2, 42952), (42960, 42960, 1, 42961), (42966, 42968, 2, 42967),
    (42997, 42997, 1, 42998), (65313, 65338, 1, 65345), (66560, 66599, 1, 66600),
    (66736, 66771, 1, 66776), (66928, 66938, 1, 66967), (66940, 66954, 1, 66979),
    (66956, 66962, 1, 66995), (66964, 66965, 1, 67003), (68736, 68786, 1, 68800),
    (71840, 71871, 1, 71872), (93760, 93791, 1, 93792), (125184, 125217, 1, 125218)]"

definition cased_ranges :: "(nat \<times> nat) list" where
  "cased_ranges = [
    (65, 90), (97, 122), (170, 170), (181, 181), (186, 186), (192, 214), (216, 246), (248, 442),
    (444, 447), (452, 659), (661, 696), (704, 705), (736, 740), (837, 837), (880, 883),
    (886, 887), (890, 893), (895, 895), (902, 902), (904, 906), (908, 908), (910, 929),
    (931, 1013), (1015, 1153), (1162, 1327), (1329, 1366), (1376, 1416), (4256, 4293),
    (4295, 4295), (4301, 4301), (4304, 4346), (4349, 4351), (5024, 5109), (5112, 5117),
    (7296, 7304), (7312, 7354), (7357, 7359), (7424, 7615), (7680, 7957), (7960, 7965),
    (7968, 8005), (8008, 8013), (8016, 8023), (8025, 8025), (8027, 8027), (8029, 8029),
    (8031, 8061), (8064, 8116), (8118, 8124), (8126, 8126), (8130, 8132), (8134, 8140),
    (8144, 8147), (8150, 8155), (8160, 8172), (8178, 8180), (8182, 8188), (8305, 8305),
    (8319, 8319), (8336, 8348), (8450, 8450), (8455, 8455), (8458, 8467), (8469, 8469),
    (8473, 8477), (8484, 8484), (8486, 8486), (8488, 8488), (8490, 8493), (8495, 8500),
    (8505, 8505), (8508, 8511), (8517, 8521), (8526, 8526), (8544, 8575), (8579, 8580),
    (9398, 9449), (11264, 11492), (11499, 11502), (11506, 11507), (11520, 11557), (11559, 11559),
    (11565, 11565), (42560, 42605), (42624, 42653), (42786, 42887), (42891, 42894),
    (42896, 42954), (42960, 42961), (42963, 42963), (42965, 42969), (42997, 42998),
    (43000, 43002), (43824, 43866), (43868, 43880), (43888, 43967), (64256, 64262),
    (64275, 64279), (65313, 65338), (65345, 65370), (66560, 66639), (66736, 66771),
    (66776, 66811), (66928, 66938), (66940, 66954), (66956, 66962), (66964, 66965),
    (66967, 66977), (66979, 66993), (66995, 67001), (67003, 67004), (67456, 67456),
    (67459, 67461), (67463, 67504), (67506, 67514), (68736, 68786), (68800, 68850),
    (71840, 71903), (93760, 93823), (119808, 119892), (119894, 119964), (119966, 119967),
    (119970, 119970), (119973, 119974), (119977, 119980), (119982, 119993), (119995, 119995),
    (119997, 120003), (120005, 120069), (120071, 120074), (120077, 120084), (120086, 120092),
    (120094, 120121), (120123, 120126), (120128, 120132), (120134, 120134), (120138, 120144),
    (120146, 120485), (120488, 120512), (120514, 120538), (120540, 120570), (120572, 120596),
    (120598, 120628), (120630, 120654), (120656, 120686), (120688, 120712), (120714, 120744),
    (120746, 120770), (120772, 120779), (122624, 122633), (122635, 122654), (125184, 125251),
    (127280, 127305), (127312, 127337), (127344, 127369)]"

definition case_ignorable_ranges :: "(nat \<times> nat) list" where
  "case_ignorable_ranges = [
    (39, 39), (46, 46), (58, 58), (94, 94), (96, 96), (168, 168), (173, 173), (175, 175),
    (180, 180), (183, 184), (688, 879), (884, 885), (890, 890), (900, 901), (903, 903),
    (1155, 1161), (1369, 1369), (1375, 1375), (1425, 1469), (1471, 1471), (1473, 1474),
    (1476, 1477), (1479, 1479), (1524, 1524), (1536, 1541), (1552, 1562), (1564, 1564),
    (1600, 1600), (1611, 1631), (1648, 1648), (1750, 1757), (1759, 1768), (1770, 1773),
    (1807, 1807), (1809, 1809), (1840, 1866), (1958, 1968), (2027, 2037), (2042, 2042),
    (2045, 2045), (2070, 2093), (2137, 2139), (2184, 2184), (2192, 2193), (2200, 2207),
    (2249, 2306), (2362, 2362), (2364, 2364), (2369, 2376), (2381, 2381), (2385, 2391),
    (2402, 2403), (2417, 2417), (2433, 2433), (2492, 2492), (2497, 2500), (2509, 2509),
    (2530, 2531), (2558, 2558), (2561, 2562), (2620, 2620), (2625, 2626), (2631, 2632),
    (2635, 2637), (2641, 2641), (2672, 2673), (2677, 2677), (2689, 2690), (2748, 2748),
    (2753, 2757), (2759, 2760), (2765, 2765), (2786, 2787), (2810, 2815), (2817, 2817),
    (2876, 2876), (2879, 2879), (2881, 2884), (2893, 2893), (2901, 2902), (2914, 2915),
    (2946, 2946), (3008, 3008), (3021, 3021), (3072, 3072), (3076, 3076), (3132, 3132),
    (3134, 3136), (3142, 3144), (3146, 3149), (3157, 3158), (3170, 3171), (3201, 3201),
    (3260, 3260), (3263, 3263), (3270, 3270), (3276, 3277), (3298, 3299), (3328, 3329),
    (3387, 3388), (3393, 3396), (3405, 3405), (3426, 3427), (3457, 3457), (3530, 3530),
    (3538, 3540), (3542, 3542), (3633, 3633), (3636, 3642), (3654, 3662), (3761, 3761),
    (3764, 3772), (3782, 3782), (3784, 3789), (3864, 3865), (3893, 3893), (3895, 3895),
    (3897, 3897), (3953, 3966), (3968, 3972), (3974, 3975), (3981, 3991), (3993, 4028),
    (4038, 4038), (4141, 4144), (4146, 4151), (4153, 4154), (4157, 4158), (4184, 4185),
    (4190, 4192), (4209, 4212), (4226, 4226), (4229, 4230), (4237, 4237), (4253, 4253),
    (4348, 4348), (4957, 4959), (5906, 5908), (5938, 5939), (5970, 5971), (6002, 6003),
    (6068, 6069), (6071, 6077), (6086, 6086), (6089, 6099), (6103, 6103), (6109, 6109),
    (6155, 6159), (6211, 6211), (6277, 6278), (6313, 6313), (6432, 6434), (6439, 6440),
    (6450, 6450), (6457, 6459), (6679, 6680), (6683, 6683), (6742, 6742), (6744, 6750),
    (6752, 6752), (6754, 6754), (6757, 6764), (6771, 6780), (6783, 6783), (6823, 6823),
    (6832, 6862), (6912, 6915), (6964, 6964), (6966, 6970), (6972, 6972), (6978, 6978),
    (7019, 7027), (7040, 7041), (7074, 7077), (7080, 7081), (7083, 7085), (7142, 7142),
    (7144, 7145), (7149, 7149), (7151, 7153), (7212, 7219), (7222, 7223), (7288, 7293),
    (7376, 7378), (7380, 7392), (7394, 7400), (7405, 7405), (7412, 7412), (7416, 7417),
    (7468, 7530), (7544, 7544), (7579, 7679), (8125, 8125), (8127, 8129), (8141, 8143),
    (8157, 8159), (8173, 8175), (8189, 8190), (8203, 8207), (8216, 8217), (8228, 8228),
    (8231, 8231), (8234, 8238), (8288, 8292), (8294, 8303), (8305, 8305), (8319, 8319),
    (8336, 8348), (8400, 8432), (11388, 11389), (11503, 11505), (11631, 11631), (11647, 11647),
    (11744, 11775), (11823, 11823), (12293, 12293), (12330, 12333), (12337, 12341),
    (12347, 12347), (12441, 12446), (12540, 12542), (40981, 40981), (42232, 42237),
    (42508, 42508), (42607, 42610), (42612, 42621), (42623, 42623), (42652, 42655),
    (42736, 42737), (42752, 42785), (42864, 42864), (42888, 42890), (42994, 42996),
    (43000, 43001), (43010, 43010), (43014, 43014), (43019, 43019), (43045, 43046),
    (43052, 43052), (43204, 43205), (43232, 43249), (43263, 43263), (43302, 43309),
    (43335, 43345), (43392, 43394), (43443, 43443), (43446, 43449), (43452, 43453),
    (43471, 43471), (43493, 43494), (43561, 43566), (43569, 43570), (43573, 43574),
    (43587, 43587), (43596, 43596), (43632, 43632), (43644, 43644), (43696, 43696),
    (43698, 43700), (43703, 43704), (43710, 43711), (43713, 43713), (43741, 43741),
    (43756, 43757), (43763, 43764), (43766, 43766), (43867, 43871), (43881, 43883),
    (44005, 44005), (44008, 44008), (44013, 44013), (64286, 64286), (64434, 64450),
    (65024, 65039), (65043, 65043), (65056, 65071), (65106, 65106), (65109, 65109),
    (65279, 65279), (65287, 65287), (65294, 65294), (65306, 65306), (65342, 65342),
    (65344, 65344), (65392, 65392), (65438, 65439), (65507, 65507), (65529, 65531),
    (66045, 66045), (66272, 66272), (66422, 66426), (67456, 67461), (67463, 67504),
    (67506, 67514), (68097, 68099), (68101, 68102), (68108, 68111), (68152, 68154),
    (68159, 68159), (68325, 68326), (68900, 68903), (69291, 69292), (69446, 69456),
    (69506, 69509), (69633, 69633), (69688, 69702), (69744, 69744), (69747, 69748),
    (69759, 69761), (69811, 69814), (69817, 69818), (69821, 69821), (69826, 69826),
    (69837, 69837), (69888, 69890), (69927, 69931), (69933, 69940), (70003, 70003),
    (70016, 70017), (70070, 70078), (70089, 70092), (70095, 70095), (70191, 70193),
    (70196, 70196), (70198, 70199), (70206, 70206), (70367, 70367), (70371, 70378),
    (70400, 70401), (70459, 70460), (70464, 70464), (70502, 70508), (70512, 70516),
    (70712, 70719), (70722, 70724), (70726, 70726), (70750, 70750), (70835, 70840),
    (70842, 70842), (70847, 70848), (70850, 70851), (71090, 71093), (71100, 71101),
    (71103, 71104), (71132, 71133), (71219, 71226), (71229, 71229), (71231, 71232),
    (71339, 71339), (71341, 71341), (71344, 71349), (71351, 71351), (71453, 71455),
    (71458, 71461), (71463, 71467), (71727, 71735), (71737, 71738), (71995, 71996),
    (71998, 71998), (72003, 72003), (72148, 72151), (72154, 72155), (72160, 72160),
    (72193, 72202), (72243, 72248), (72251, 72254), (72263, 72263), (72273, 72278),
    (72281, 72283), (72330, 72342), (72344, 72345), (72752, 72758), (72760, 72765),
    (72767, 72767), (72850, 72871), (72874, 72880), (72882, 72883), (72885, 72886),
    (73009, 73014), (73018, 73018), (73020, 73021), (73023, 73029), (73031, 73031),
    (73104, 73105), (73109, 73109), (73111, 73111), (73459, 73460), (78896, 78904),
    (92912, 92916), (92976, 92982), (92992, 92995), (94031, 94031), (94095, 94111),
    (94176, 94177), (94179, 94180), (110576, 110579), (110581, 110587), (110589, 110590),
    (113821, 113822), (113824, 113827), (118528, 118573), (118576, 118598), (119143, 119145),
    (119155, 119170), (119173, 119179), (119210, 119213), (119362, 119364), (121344, 121398),
    (121403, 121452), (121461, 121461), (121476, 121476), (121499, 121503), (121505, 121519),
    (122880, 122886), (122888, 122904), (122907, 122913), (122915, 122916), (122918, 122922),
    (123184, 123197), (123566, 123566), (123628, 123631), (125136, 125142), (125252, 125259),
    (127995, 127999), (917505, 917505), (917536, 917631), (917760, 917999)]"

definition in_ranges :: "(nat \<times> nat) list \<Rightarrow> nat \<Rightarrow> bool" where
  "in_ranges rs c = list_ex (\<lambda>r. fst r \<le> c \<and> c \<le> snd r) rs"

definition cased :: "nat \<Rightarrow> bool" where
  "cased c = in_ranges cased_ranges c"

definition case_ignorable :: "nat \<Rightarrow> bool" where
  "case_ignorable c = in_ranges case_ignorable_ranges c"

fun lower_run :: "(nat \<times> nat \<times> nat \<times> nat) list \<Rightarrow> nat \<Rightarrow> nat" where
  "lower_run [] c = c"
| "lower_run ((lo, hi, step, img) # rs) c =
     (if lo \<le> c \<and> c \<le> hi \<and> (c - lo) mod step = 0 then img + (c - lo)
      else lower_run rs c)"

definition lower_cp :: "nat \<Rightarrow> ustr" where
  "lower_cp c =
     (if c < 128 then (if 65 \<le> c \<and> c \<le> 90 then [c + 32] else [c])
      else if c = 304 then [105, 775]
      else [lower_run lower_runs c])"

text \<open>
  The lower case of a capital sigma, given the text before it, nearest character
  first, and the text after it.
\<close>

definition final_sigma :: "ustr \<Rightarrow> ustr \<Rightarrow> nat" where
  "final_sigma before after =
     (case dropWhile case_ignorable before of
        [] \<Rightarrow> 963
      | b # _ \<Rightarrow>
          (if cased b
           then (case dropWhile case_ignorable after of
                   [] \<Rightarrow> 962
                 | a # _ \<Rightarrow> if cased a then 963 else 962)
           else 963))"

fun lower_from :: "ustr \<Rightarrow> ustr \<Rightarrow> ustr" where
  "lower_from before [] = []"
| "lower_from before (c # cs) =
     (if c = 931 then [final_sigma before cs] else lower_cp c) @ lower_from (c # before) cs"

definition lower :: "ustr \<Rightarrow> ustr" where
  "lower s = lower_from [] s"

definition strip :: "ustr \<Rightarrow> ustr" where
  "strip s = rev (dropWhile is_space (rev (dropWhile is_space s)))"

text \<open>\<open>s.split('\n')\<close>: the lines of a text; never the empty list.\<close>

fun split_nl :: "ustr \<Rightarrow> ustr list" where
  "split_nl [] = [[]]"
| "split_nl (c # cs) =
     (if c = 10 then [] # split_nl cs
      else (case split_nl cs of [] \<Rightarrow> [[c]] | l # ls \<Rightarrow> (c # l) # ls))"

text \<open>\<open>pat in s\<close> for two texts: \<open>pat\<close> occurs in \<open>s\<close> as a contiguous piece.\<close>

fun contains :: "ustr \<Rightarrow> ustr \<Rightarrow> bool" where
  "contains pat [] = (pat = [])"
| "contains pat (c # cs) = (prefix pat (c # cs) \<or> contains pat cs)"

section \<open>Regular expressions\<close>

text \<open>
  The patterns of the program use literals, character classes, repetition of a single
  character class (greedy or lazy), sequence, alternation, optional and capturing groups,
  and the assertions \<open>\b\<close>, \<open>^\<close> and \<open>$\<close>. \<open>rmatch\<close> is the backtracking matcher
  of Python's \<open>re\<close>: it returns every way the pattern can match at the current
  position, in the order in which the matcher tries them, so the head of the list is the
  match Python reports. A state is the character before the position (\<open>None\<close> at the
  start of the text), the text from the position on, and the groups captured so far
  (latest first).
\<close>

datatype cclass =
    AnyChar            \<comment> \<open>\<open>[\s\S]\<close>\<close>
  | Dot                \<comment> \<open>\<open>.\<close>: every character but the newline\<close>
  | Space              \<comment> \<open>\<open>\s\<close>\<close>
  | NonSpace           \<comment> \<open>\<open>\S\<close>\<close>
  | Word               \<comment> \<open>\<open>\w\<close>\<close>
  | OneOf ustr         \<comment> \<open>\<open>[...]\<close>\<close>

fun cc_mem :: "cclass \<Rightarrow> nat \<Rightarrow> bool" where
  "cc_mem AnyChar c = True"
| "cc_mem Dot c = (c \<noteq> 10)"
| "cc_mem Space c = is_space c"
| "cc_mem NonSpace c = (\<not> is_space c)"
| "cc_mem Word c = is_word c"
| "cc_mem (OneOf cs) c = (c \<in> set cs)"

datatype rx =
    Lit ustr                 \<comment> \<open>a literal text\<close>
  | Rep cclass nat bool      \<comment> \<open>a class repeated at least \<open>n\<close> times; greedy if \<open>True\<close>\<close>
  | Seq rx rx
  | Alt rx rx
  | Opt rx                   \<comment> \<open>\<open>r?\<close>\<close>
  | Grp nat rx               \<comment> \<open>capturing group number \<open>n\<close>\<close>
  | WordB                    \<comment> \<open>\<open>\b\<close>\<close>
  | Bol                      \<comment> \<open>\<open>^\<close> without MULTILINE\<close>
  | Eol                      \<comment> \<open>\<open>$\<close> without MULTILINE\<close>
  | BolM                     \<comment> \<open>\<open>^\<close> with MULTILINE\<close>
  | EolM                     \<comment> \<open>\<open>$\<close> with MULTILINE\<close>

type_synonym rstate = "nat option \<times> ustr \<times> (nat \<times> ustr) list"

definition adv :: "nat \<Rightarrow> rstate \<Rightarrow> rstate" where
  "adv k st = (case st of (p, s, g) \<Rightarrow>
     (if k = 0 then p else Some (s ! (k - 1)), drop k s, g))"

definition word_opt :: "nat option \<Rightarrow> bool" where
  "word_opt p = (case p of None \<Rightarrow> False | Some c \<Rightarrow> is_word c)"

definition rep_counts :: "cclass \<Rightarrow> nat \<Rightarrow> bool \<Rightarrow> ustr \<Rightarrow> nat list" where
  "rep_counts c n greedy s =
     (let ks = [n ..< Suc (length (takeWhile (cc_mem c) s))]
      in if greedy then rev ks else ks)"

primrec rmatch :: "rx \<Rightarrow> rstate \<Rightarrow> rstate list" where
  "rmatch (Lit l) st =
     (if prefix l (fst (snd st)) then [adv (length l) st] else [])"
| "rmatch (Rep c n greedy) st =
     map (\<lambda>k. adv k st) (rep_counts c n greedy (fst (snd st)))"
| "rmatch (Seq a b) st = concat (map (rmatch b) (rmatch a st))"
| "rmatch (Alt a b) st = rmatch a st @ rmatch b st"
| "rmatch (Opt a) st = rmatch a st @ [st]"
| "rmatch (Grp i a) st =
     map (\<lambda>st'. (fst st', fst (snd st'),
                 (i, take (length (fst (snd st)) - length (fst (snd st'))) (fst (snd st)))
                   # snd (snd st')))
         (rmatch a st)"
| "rmatch WordB st =
     (if word_opt (fst st) \<noteq> word_opt (case fst (snd st) of [] \<Rightarrow> None | c # _ \<Rightarrow> Some c)
      then [st] else [])"
| "rmatch Bol st = (if fst st = None then [st] else [])"
| "rmatch Eol st = (if fst (snd st) = [] \<or> fst (snd st) = [10] then [st] else [])"
| "rmatch BolM st = (if fst st = None \<or> fst st = Some 10 then [st] else [])"
| "rmatch EolM st =
     (if (case fst (snd st) of [] \<Rightarrow> True | c # _ \<Rightarrow> c = 10) then [st] else [])"

fun seqs :: "rx list \<Rightarrow> rx" where
  "seqs [] = Lit []"
| "seqs [r] = r"
| "seqs (r # rs) = Seq r (seqs rs)"

text \<open>\<open>m.group(i)\<close> of a match: the latest capture of group \<open>i\<close>.\<close>

definition group :: "rstate \<Rightarrow> nat \<Rightarrow> ustr option" where
  "group st i = map_of (snd (snd st)) i"

text \<open>\<open>re.match(r, s)\<close>: the first match at the start of the text.\<close>

definition re_match :: "rx \<Rightarrow> ustr \<Rightarrow> rstate option" where
  "re_match r s = (case rmatch r (None, s, []) of [] \<Rightarrow> None | m # _ \<Rightarrow> Some m)"

text \<open>
  \<open>re.search(r, s)\<close>: the first match at the leftmost position that has one.
  \<open>search_from\<close> also takes the character before the position.
\<close>

fun search_from :: "rx \<Rightarrow> nat option \<Rightarrow> ustr \<Rightarrow> rstate option" where
  "search_from r p [] = (case rmatch r (p, [], []) of [] \<Rightarrow> None | m # _ \<Rightarrow> Some m)"
| "search_from r p (c # cs) =
     (case rmatch r (p, c # cs, []) of
        [] \<Rightarrow> search_from r (Some c) cs
      | m # _ \<Rightarrow> Some m)"

definition re_search :: "rx \<Rightarrow> ustr \<Rightarrow> rstate option" where
  "re_search r s = search_from r None s"



text \<open>\<open>m.group(i) or ""\<close>: a group that took no part in the match counts as empty.\<close>

definition group_text :: "rstate \<Rightarrow> nat \<Rightarrow> ustr" where
  "group_text st i = (case group st i of None \<Rightarrow> [] | Some g \<Rightarrow> g)"

text \<open>
  \<open>re.finditer(r, s)\<close>: the successive matches, none overlapping another, each with
  its start and end offset. After a match the scan goes on where the match ended. The
  one pattern the program scans with never matches the empty text; an empty match is
  recorded and the scan moves one character on.
\<close>

function finditer_from :: "rx \<Rightarrow> nat \<Rightarrow> nat option \<Rightarrow> ustr \<Rightarrow> (nat \<times> nat \<times> rstate) list" where
  "finditer_from r off p s =
     (case rmatch r (p, s, []) of
        [] \<Rightarrow> (case s of [] \<Rightarrow> [] | c # cs \<Rightarrow> finditer_from r (Suc off) (Some c) cs)
      | m # _ \<Rightarrow>
          (if length s - length (fst (snd m)) = 0
           then (off, off, m) #
                (case s of [] \<Rightarrow> [] | c # cs \<Rightarrow> finditer_from r (Suc off) (Some c) cs)
           else (off, off + (length s - length (fst (snd m))), m) #
                finditer_from r (off + (length s - length (fst (snd m)))) (fst m) (fst (snd m))))"
  by pat_completeness auto
termination
  by (relation "measure (\<lambda>(r, off, p, s). length s)") auto

definition finditer :: "rx \<Rightarrow> ustr \<Rightarrow> (nat \<times> nat \<times> rstate) list" where
  "finditer r s = finditer_from r 0 None s"

text \<open>
  \<open>re.sub(r, "\1", s)\<close>: every match, scanning as \<open>finditer\<close> does, is replaced by
  its group 1; the text between the matches is kept.
\<close>

function sub_group1_from :: "rx \<Rightarrow> nat option \<Rightarrow> ustr \<Rightarrow> ustr" where
  "sub_group1_from r p s =
     (case rmatch r (p, s, []) of
        [] \<Rightarrow> (case s of [] \<Rightarrow> [] | c # cs \<Rightarrow> c # sub_group1_from r (Some c) cs)
      | m # _ \<Rightarrow>
          (if length s - length (fst (snd m)) = 0
           then group_text m 1 @
                (case s of [] \<Rightarrow> [] | c # cs \<Rightarrow> c # sub_group1_from r (Some c) cs)
           else group_text m 1 @ sub_group1_from r (fst m) (fst (snd m))))"
  by pat_completeness auto
termination
  by (relation "measure (\<lambda>(r, p, s). length s)") auto

definition sub_group1 :: "rx \<Rightarrow> ustr \<Rightarrow> ustr" where
  "sub_group1 r s = sub_group1_from r None s"

section \<open>The safety classifier\<close>

text \<open>
  The nine patterns of \<open>is_dangerous_command\<close>, in the order of the source. In the
  seventh, \<open>:(){.*};:\<close>, the parentheses are an empty group and the braces are
  literal, as Python's \<open>re\<close> reads it. In the eighth, the class \<open>[R]\<close> is the one
  character \<open>R\<close>.
\<close>

definition dangerous_patterns :: "rx list" where
  "dangerous_patterns = [
     seqs [WordB, Lit (asc ''rm''), Rep Space 1 True,
           Opt (Grp 1 (seqs [Lit (asc ''-''), Rep (OneOf (asc ''rf'')) 1 True,
                             Rep Space 1 True])),
           Grp 2 (Alt (Lit (asc ''/'')) (Alt (Lit (asc ''~'')) (Lit (asc ''..''))))],
     seqs [WordB, Lit (asc ''mv''), Rep Space 1 True, Rep NonSpace 1 True, Rep Space 1 True,
           Grp 1 (Alt (Lit (asc ''/'')) (Lit (asc ''~'')))],
     seqs [WordB, Lit (asc ''dd''), Rep Space 1 True],
     seqs [WordB, Lit (asc ''format''), WordB],
     seqs [WordB, Lit (asc ''mkfs''), WordB],
     seqs [WordB,
           Grp 1 (Alt (Lit (asc ''halt'')) (Alt (Lit (asc ''poweroff''))
                  (Alt (Lit (asc ''shutdown'')) (Lit (asc ''reboot''))))),
           WordB],
     seqs [Lit (asc '':''), Grp 1 (Lit []), Lit (asc ''{''), Rep Dot 0 True,
           Lit (asc ''};:'')],
     seqs [WordB, Lit (asc ''chmod''), Rep Space 1 True, Lit (asc ''-''),
           Lit (asc ''R''), Rep Dot 0 True, Lit (asc ''777''), WordB],
     seqs [WordB, Grp 1 (Alt (Lit (asc ''wget'')) (Lit (asc ''curl''))), Rep Dot 0 True,
           Lit (asc ''|''), Rep Space 0 True,
           Grp 2 (Alt (Lit (asc ''bash'')) (Lit (asc ''sh''))), WordB]]"

definition is_dangerous_command :: "ustr \<Rightarrow> bool" where
  "is_dangerous_command command =
     list_ex (\<lambda>pattern. re_search pattern command \<noteq> None) dangerous_patterns"

section \<open>The response parser\<close>

record code_block =
  language :: ustr
  content :: ustr
  start :: nat
  end_pos :: nat
  is_command :: bool

text \<open>The pattern \<open>```(\w*)\n([\s\S]*?)\n```\<close> of \<open>detect_code_blocks\<close>.\<close>

definition code_block_pattern :: rx where
  "code_block_pattern =
     seqs [Lit (asc ''```''), Grp 1 (Rep Word 0 True), Lit [10],
           Grp 2 (Rep AnyChar 0 False), Lit (10 # asc ''```'')]"

text \<open>The two code points of the language tag that marks a command block.\<close>

definition command_tag :: ustr where
  "command_tag = [21629, 20196]"

definition make_block :: "nat \<times> nat \<times> rstate \<Rightarrow> code_block" where
  "make_block m = (case m of (s, e, st) \<Rightarrow>
     (let lang = (if group_text st 1 = [] then asc ''text'' else group_text st 1);
          code = group_text st 2
      in if lower lang = command_tag
         then \<lparr>language = asc ''bash'', content = code, start = s, end_pos = e,
               is_command = True\<rparr>
         else \<lparr>language = lang, content = code, start = s, end_pos = e,
               is_command = False\<rparr>))"

definition detect_code_blocks :: "ustr \<Rightarrow> code_block list" where
  "detect_code_blocks text = map make_block (finditer code_block_pattern text)"

text \<open>
  The pattern \<open>^(?:\!|\$)\s*(.+)$\<close> of \<open>process_response\<close>, as \<open>re.match\<close> uses
  it on one stripped line, and with MULTILINE as \<open>re.sub\<close> uses it on the whole text.
\<close>

definition command_pattern :: rx where
  "command_pattern =
     seqs [Bol, Alt (Lit (asc ''!'')) (Lit (asc ''$'')), Rep Space 0 True,
           Grp 1 (Rep Dot 1 True), Eol]"

definition command_pattern_multiline :: rx where
  "command_pattern_multiline =
     seqs [BolM, Alt (Lit (asc ''!'')) (Lit (asc ''$'')), Rep Space 0 True,
           Grp 1 (Rep Dot 1 True), EolM]"

text \<open>The part of \<open>command_pattern\<close> after the marker, named for the proofs.\<close>

definition command_tail :: rx where
  "command_tail = Seq (Rep Space 0 True) (Seq (Grp 1 (Rep Dot 1 True)) Eol)"

text \<open>The body of the loop over the lines: the command of one line, if it yields one.\<close>

definition line_command :: "ustr \<Rightarrow> ustr option" where
  "line_command line =
     (case re_match command_pattern (strip line) of
        None \<Rightarrow> None
      | Some m \<Rightarrow>
          (let cmd = strip (group_text m 1)
           in if cmd \<noteq> [] \<and> \<not> is_dangerous_command cmd then Some cmd else None))"

definition process_response :: "ustr \<Rightarrow> ustr \<times> code_block list \<times> ustr list" where
  "process_response response =
     (let code_blocks = detect_code_blocks response;
          commands = List.map_filter line_command (split_nl response);
          cleaned_response = sub_group1 command_pattern_multiline response
      in (cleaned_response, code_blocks, commands))"


section \<open>The filename advisor\<close>

text \<open>The dictionary \<open>extensions\<close>, in the order of the source.\<close>

definition extensions :: "(ustr \<times> ustr) list" where
  "extensions = [
     (asc ''python'', asc ''.py''), (asc ''py'', asc ''.py''),
     (asc ''javascript'', asc ''.js''), (asc ''js'', asc ''.js''),
     (asc ''typescript'', asc ''.ts''), (asc ''ts'', asc ''.ts''),
     (asc ''html'', asc ''.html''), (asc ''css'', asc ''.css''),
     (asc ''json'', asc ''.json''), (asc ''bash'', asc ''.sh''),
     (asc ''shell'', asc ''.sh''), (asc ''sh'', asc ''.sh''),
     (asc ''ruby'', asc ''.rb''), (asc ''go'', asc ''.go''),
     (asc ''java'', asc ''.java''), (asc ''c'', asc ''.c''),
     (asc ''cpp'', asc ''.cpp''), (asc ''c++'', asc ''.cpp''),
     (asc ''rust'', asc ''.rs''), (asc ''rs'', asc ''.rs'')]"

text \<open>
  The three patterns of \<open>filename_patterns\<close>:
  \<open>(?:\/\/|#)\s*filename\s*:\s*(\S+)\<close>,
  \<open>\/\*\s*filename\s*:\s*(\S+)\s*\*\/\<close> and
  \<open><!--\s*filename\s*:\s*(\S+)\s*-->\<close>.
\<close>

definition filename_patterns :: "rx list" where
  "filename_patterns = [
     seqs [Alt (Lit (asc ''//'')) (Lit (asc ''#'')), Rep Space 0 True, Lit (asc ''filename''),
           Rep Space 0 True, Lit (asc '':''), Rep Space 0 True, Grp 1 (Rep NonSpace 1 True)],
     seqs [Lit (asc ''/*''), Rep Space 0 True, Lit (asc ''filename''),
           Rep Space 0 True, Lit (asc '':''), Rep Space 0 True, Grp 1 (Rep NonSpace 1 True),
           Rep Space 0 True, Lit (asc ''*/'')],
     seqs [Lit (asc ''<!--''), Rep Space 0 True, Lit (asc ''filename''),
           Rep Space 0 True, Lit (asc '':''), Rep Space 0 True, Grp 1 (Rep NonSpace 1 True),
           Rep Space 0 True, Lit (asc ''-->'')]]"

text \<open>
  The loop over \<open>filename_patterns\<close>: group 1 of the first pattern that is found in
  the content.
\<close>

fun filename_directive :: "rx list \<Rightarrow> ustr \<Rightarrow> ustr option" where
  "filename_directive [] content' = None"
| "filename_directive (pattern # patterns) content' =
     (case re_search pattern content' of
        Some m \<Rightarrow> Some (group_text m 1)
      | None \<Rightarrow> filename_directive patterns content')"

text \<open>The pattern \<open>class\s+(\w+)\<close>.\<close>

definition class_pattern :: rx where
  "class_pattern = seqs [Lit (asc ''class''), Rep Space 1 True, Grp 1 (Rep Word 1 True)]"

text \<open>\<open>str(n)\<close> for a natural number: its decimal digits.\<close>

fun str_nat :: "nat \<Rightarrow> ustr" where
  "str_nat n = (if n < 10 then [48 + n] else str_nat (n div 10) @ [48 + n mod 10])"

text \<open>
  \<open>suggest_filename\<close>. Its first argument is the value of \<open>int(time.time())\<close> at
  the call; the second is the code block.
\<close>

definition suggest_filename :: "nat \<Rightarrow> code_block \<Rightarrow> ustr" where
  "suggest_filename now code_block =
     (let lang = lower (language code_block);
          content' = content code_block
      in case filename_directive filename_patterns content' of
           Some name \<Rightarrow> name
         | None \<Rightarrow>
            (let ext = (case map_of extensions lang of None \<Rightarrow> asc ''.txt'' | Some x \<Rightarrow> x);
                 default = asc ''file_'' @ str_nat now @ ext
             in if lang \<in> set [asc ''python'', asc ''py'']
                then (if contains (asc ''def main'') content' \<or>
                         contains (asc ''if __name__ == '' @ [34] @ asc ''__main__'' @ [34]) content'
                      then asc ''main.py''
                      else if contains (asc ''class'') content'
                      then (case re_search class_pattern content' of
                              Some class_match \<Rightarrow> lower (group_text class_match 1) @ asc ''.py''
                            | None \<Rightarrow> default)
                      else default)
                else if lang \<in> set [asc ''js'', asc ''javascript'']
                then (if contains (asc ''function main'') content' \<or>
                         contains (asc ''const main'') content'
                      then asc ''main.js'' else default)
                else if lang \<in> set [asc ''html''] then asc ''index.html''
                else if lang \<in> set [asc ''sh'', asc ''bash'', asc ''shell''] then asc ''script.sh''
                else default))"

section \<open>The session state and its collaborators\<close>

text \<open>A value read by \<open>json.loads\<close>. A number keeps its spelling.\<close>

datatype json =
    JNull
  | JBool bool
  | JNum ustr
  | JStr ustr
  | JArr "json list"
  | JObj "(ustr \<times> json) list"

text \<open>
  One entry of \<open>history\<close>, the dictionary \<open>{"role": ..., "content": ...}\<close>. An
  entry read back from the history file holds whatever JSON values the line had.
\<close>

record message =
  msg_role :: json
  msg_content :: json

text \<open>The exceptions the modelled code can raise.\<close>

datatype exn =
    EOFError
  | KeyError
  | TypeError
  | AttributeError
  | JSONDecodeError
  | ValueError
  | UnicodeDecodeError
  | UnicodeEncodeError
  | RequestError ustr

section \<open>JSON, as \<open>json.loads\<close> and \<open>json.dumps\<close> handle it\<close>

text \<open>
  \<open>json.loads\<close> follows CPython's decoder: whitespace is space, tab, newline and
  carriage return; a string may not hold a raw control character; the escapes are
  \<open>\" \\ \/ \b \f \n \r \t\<close> and \<open>\uXXXX\<close>, where a high surrogate directly followed
  by an escaped low surrogate is one code point; \<open>NaN\<close>, \<open>Infinity\<close> and
  \<open>-Infinity\<close> are numbers.
\<close>

definition json_space :: "nat \<Rightarrow> bool" where
  "json_space c = (c = 32 \<or> c = 9 \<or> c = 10 \<or> c = 13)"

definition skip_ws :: "ustr \<Rightarrow> ustr" where
  "skip_ws s = dropWhile json_space s"

definition is_digit :: "nat \<Rightarrow> bool" where
  "is_digit c = (48 \<le> c \<and> c \<le> 57)"

definition hex_value :: "nat \<Rightarrow> nat option" where
  "hex_value c =
     (if 48 \<le> c \<and> c \<le> 57 then Some (c - 48)
      else if 97 \<le> c \<and> c \<le> 102 then Some (c - 87)
      else if 65 \<le> c \<and> c \<le> 70 then Some (c - 55)
      else None)"

definition hex4 :: "nat \<Rightarrow> nat \<Rightarrow> nat \<Rightarrow> nat \<Rightarrow> nat option" where
  "hex4 a b c d =
     (case (hex_value a, hex_value b, hex_value c, hex_value d) of
        (Some x, Some y, Some z, Some u) \<Rightarrow> Some (((x * 16 + y) * 16 + z) * 16 + u)
      | _ \<Rightarrow> None)"

definition escape_value :: "nat \<Rightarrow> nat option" where
  "escape_value c =
     (if c = 34 then Some 34 else if c = 92 then Some 92 else if c = 47 then Some 47
      else if c = 98 then Some 8 else if c = 102 then Some 12 else if c = 110 then Some 10
      else if c = 114 then Some 13 else if c = 116 then Some 9 else None)"

definition cons_text :: "nat \<Rightarrow> (ustr \<times> ustr) option \<Rightarrow> (ustr \<times> ustr) option" where
  "cons_text c r = (case r of None \<Rightarrow> None | Some (t, rest) \<Rightarrow> Some (c # t, rest))"

text \<open>
  The low surrogate escape that directly follows, if there is one: its value and the
  text after it.
\<close>

definition low_surrogate :: "ustr \<Rightarrow> (nat \<times> ustr) option" where
  "low_surrogate s =
     (case s of
        b # u # h1 # h2 # h3 # h4 # rest \<Rightarrow>
          (if b = 92 \<and> u = 117
           then (case hex4 h1 h2 h3 h4 of
                   Some v \<Rightarrow> if 56320 \<le> v \<and> v \<le> 57343 then Some (v, rest) else None
                 | None \<Rightarrow> None)
           else None)
      | _ \<Rightarrow> None)"

text \<open>
  \<open>scan_string\<close> reads a string from just after its opening quote: the text it
  denotes and what follows the closing quote.
\<close>

function scan_string :: "ustr \<Rightarrow> (ustr \<times> ustr) option" where
  "scan_string [] = None"
| "scan_string (c # cs) =
     (if c = 34 then Some ([], cs)
      else if c = 92 then
        (case cs of
           [] \<Rightarrow> None
         | e # es \<Rightarrow>
             (if e = 117 then
                (case es of
                   h1 # h2 # h3 # h4 # rest \<Rightarrow>
                     (case hex4 h1 h2 h3 h4 of
                        None \<Rightarrow> None
                      | Some v \<Rightarrow>
                          (if 55296 \<le> v \<and> v \<le> 56319 \<and> low_surrogate rest \<noteq> None
                           then cons_text
                                  (65536 + (v - 55296) * 1024 +
                                     (fst (the (low_surrogate rest)) - 56320))
                                  (scan_string (drop 6 rest))
                           else cons_text v (scan_string rest)))
                 | _ \<Rightarrow> None)
              else (case escape_value e of
                      None \<Rightarrow> None
                    | Some v \<Rightarrow> cons_text v (scan_string es))))
      else if c < 32 then None
      else cons_text c (scan_string cs))"
  by pat_completeness auto
termination
  by (relation "measure length") auto

text \<open>
  The number at the start of a text, by the pattern
  \<open>(-?(?:0|[1-9][0-9]*))(\.[0-9]+)?([eE][-+]?[0-9]+)?\<close>: its spelling and the rest.
\<close>

definition scan_int :: "ustr \<Rightarrow> (ustr \<times> ustr) option" where
  "scan_int s =
     (case s of
        [] \<Rightarrow> None
      | c # cs \<Rightarrow>
          (if c = 48 then Some ([48], cs)
           else if is_digit c then Some (c # takeWhile is_digit cs, dropWhile is_digit cs)
           else None))"

definition scan_frac :: "ustr \<Rightarrow> ustr \<times> ustr" where
  "scan_frac s =
     (case s of
        d # c # cs \<Rightarrow>
          (if d = 46 \<and> is_digit c
           then (d # c # takeWhile is_digit cs, dropWhile is_digit cs) else ([], s))
      | _ \<Rightarrow> ([], s))"

definition scan_exp :: "ustr \<Rightarrow> ustr \<times> ustr" where
  "scan_exp s =
     (case s of
        [] \<Rightarrow> ([], s)
      | e # cs \<Rightarrow>
          (if e = 101 \<or> e = 69
           then (case cs of
                   [] \<Rightarrow> ([], s)
                 | g # ds \<Rightarrow>
                     (if g = 43 \<or> g = 45
                      then (if ds \<noteq> [] \<and> is_digit (hd ds)
                            then (e # g # takeWhile is_digit ds, dropWhile is_digit ds)
                            else ([], s))
                      else if is_digit g
                      then (e # takeWhile is_digit cs, dropWhile is_digit cs)
                      else ([], s)))
           else ([], s)))"

definition scan_number :: "ustr \<Rightarrow> (ustr \<times> ustr) option" where
  "scan_number s =
     (let (sign, s1) = (case s of c # cs \<Rightarrow> if c = 45 then ([45], cs) else ([], s)
                        | [] \<Rightarrow> ([], s))
      in case scan_int s1 of
           None \<Rightarrow> None
         | Some (i, s2) \<Rightarrow>
             (let (f, s3) = scan_frac s2; (x, s4) = scan_exp s3
              in Some (sign @ i @ f @ x, s4)))"

text \<open>
  A value that is neither a string, an object nor an array. An integer of more than
  4300 digits makes \<open>int\<close> raise \<open>ValueError\<close>, which is not a
  \<open>JSONDecodeError\<close>.
\<close>

definition scan_atom :: "ustr \<Rightarrow> exn + json \<times> ustr" where
  "scan_atom s =
     (if prefix (asc ''null'') s then Inr (JNull, drop 4 s)
      else if prefix (asc ''true'') s then Inr (JBool True, drop 4 s)
      else if prefix (asc ''false'') s then Inr (JBool False, drop 5 s)
      else (case scan_number s of
              Some (n, rest) \<Rightarrow>
                (if 46 \<notin> set n \<and> 101 \<notin> set n \<and> 69 \<notin> set n \<and>
                    4300 < length (filter is_digit n)
                 then Inl ValueError else Inr (JNum n, rest))
            | None \<Rightarrow>
                (if prefix (asc ''NaN'') s then Inr (JNum (asc ''NaN''), drop 3 s)
                 else if prefix (asc ''Infinity'') s
                 then Inr (JNum (asc ''Infinity''), drop 8 s)
                 else if prefix (asc ''-Infinity'') s
                 then Inr (JNum (asc ''-Infinity''), drop 9 s)
                 else Inl JSONDecodeError)))"

text \<open>
  The recursive descent over values, the members of an object and the elements of an
  array. Every call takes one unit of fuel; \<open>json_loads\<close> gives more than any
  text can use. \<open>parse_members\<close> and \<open>parse_elements\<close> start at the first key or
  element and take the members or elements read so far. The interpreter's limit on the
  depth of the recursion is not modelled.
\<close>

fun parse_value :: "nat \<Rightarrow> ustr \<Rightarrow> exn + json \<times> ustr"
  and parse_members :: "nat \<Rightarrow> (ustr \<times> json) list \<Rightarrow> ustr \<Rightarrow> exn + json \<times> ustr"
  and parse_elements :: "nat \<Rightarrow> json list \<Rightarrow> ustr \<Rightarrow> exn + json \<times> ustr" where
  "parse_value 0 s = Inl JSONDecodeError"
| "parse_value (Suc n) s =
     (case s of
        [] \<Rightarrow> Inl JSONDecodeError
      | c # cs \<Rightarrow>
          (if c = 34 then
             (case scan_string cs of
                None \<Rightarrow> Inl JSONDecodeError
              | Some (t, rest) \<Rightarrow> Inr (JStr t, rest))
           else if c = 123 then
             (case skip_ws cs of
                [] \<Rightarrow> Inl JSONDecodeError
              | d # ds \<Rightarrow> if d = 125 then Inr (JObj [], ds) else parse_members n [] (d # ds))
           else if c = 91 then
             (case skip_ws cs of
                [] \<Rightarrow> Inl JSONDecodeError
              | d # ds \<Rightarrow> if d = 93 then Inr (JArr [], ds) else parse_elements n [] (d # ds))
           else scan_atom s))"
| "parse_members 0 acc s = Inl JSONDecodeError"
| "parse_members (Suc n) acc s =
     (case s of
        [] \<Rightarrow> Inl JSONDecodeError
      | q # cs \<Rightarrow>
          (if q \<noteq> 34 then Inl JSONDecodeError
           else (case scan_string cs of
                   None \<Rightarrow> Inl JSONDecodeError
                 | Some (key, s1) \<Rightarrow>
                     (case skip_ws s1 of
                        [] \<Rightarrow> Inl JSONDecodeError
                      | colon # s2 \<Rightarrow>
                          (if colon \<noteq> 58 then Inl JSONDecodeError
                           else (case parse_value n (skip_ws s2) of
                                   Inl e \<Rightarrow> Inl e
                                 | Inr (v, s3) \<Rightarrow>
                                     (case skip_ws s3 of
                                        [] \<Rightarrow> Inl JSONDecodeError
                                      | d # s4 \<Rightarrow>
                                          (if d = 125 then Inr (JObj (acc @ [(key, v)]), s4)
                                           else if d = 44
                                           then parse_members n (acc @ [(key, v)]) (skip_ws s4)
                                           else Inl JSONDecodeError))))))))"
| "parse_elements 0 acc s = Inl JSONDecodeError"
| "parse_elements (Suc n) acc s =
     (case parse_value n s of
        Inl e \<Rightarrow> Inl e
      | Inr (v, s1) \<Rightarrow>
          (case skip_ws s1 of
             [] \<Rightarrow> Inl JSONDecodeError
           | d # s2 \<Rightarrow>
               (if d = 93 then Inr (JArr (acc @ [v]), s2)
                else if d = 44 then parse_elements n (acc @ [v]) (skip_ws s2)
                else Inl JSONDecodeError)))"

text \<open>
  \<open>json.loads(s)\<close>: the value, or the exception raised. Whitespace may come before
  and after the value, and nothing else.
\<close>

definition json_loads :: "ustr \<Rightarrow> exn + json" where
  "json_loads s =
     (case parse_value (2 * length s + 2) (skip_ws s) of
        Inl e \<Rightarrow> Inl e
      | Inr (v, rest) \<Rightarrow> if skip_ws rest = [] then Inr v else Inl JSONDecodeError)"

text \<open>
  \<open>d[key]\<close> for a value read by \<open>json.loads\<close>. Of a repeated key of an object the
  last value counts, as in the \<open>dict\<close> the decoder builds.
\<close>

definition subscript :: "json \<Rightarrow> ustr \<Rightarrow> exn + json" where
  "subscript d key =
     (case d of
        JObj kvs \<Rightarrow> (case map_of (rev kvs) key of None \<Rightarrow> Inl KeyError | Some v \<Rightarrow> Inr v)
      | _ \<Rightarrow> Inl TypeError)"

text \<open>
  \<open>json.dumps(..., ensure_ascii=False)\<close> of a string: the quote, the backslash and
  the control characters are escaped, everything else is written as it is.
\<close>

definition hex_digit :: "nat \<Rightarrow> nat" where
  "hex_digit d = (if d < 10 then 48 + d else 87 + d)"

definition escape_char :: "nat \<Rightarrow> ustr" where
  "escape_char c =
     (if c = 34 then [92, 34] else if c = 92 then [92, 92]
      else if c = 10 then [92, 110] else if c = 13 then [92, 114]
      else if c = 9 then [92, 116] else if c = 8 then [92, 98]
      else if c = 12 then [92, 102]
      else if c < 32 then [92, 117, 48, 48, hex_digit (c div 16), hex_digit (c mod 16)]
      else [c])"

definition encode_string :: "ustr \<Rightarrow> ustr" where
  "encode_string s = 34 # concat (map escape_char s) @ [34]"

text \<open>
  What a provider's endpoint does with one request. \<open>NoResponse\<close>: the POST or its
  status check raised, and \<open>call_*_api\<close> returned \<open>None\<close>. \<open>Response ls x\<close>:
  \<open>iter_lines()\<close> yields the raw lines \<open>ls\<close> and then ends (\<open>x = None\<close>) or
  raises an exception whose text is \<open>t\<close> (\<open>x = Some t\<close>).
\<close>

datatype response = NoResponse | Response "string list" "ustr option"

text \<open>
  What the shell does with a command: \<open>Popen\<close> raises (with the text of the
  exception), or the child writes to its standard output and standard error and
  exits with a return code.
\<close>

datatype proc_result = SpawnFailed ustr | Exited ustr ustr int

text \<open>What the program prints, one constructor for each message of the source.\<close>

datatype event =
    RefusedDangerous ustr       \<comment> \<open>the red refusal of a dangerous command\<close>
  | AskExecute ustr             \<comment> \<open>the question whether to run a command\<close>
  | CancelledExecute
  | Executing ustr
  | ProcStdout ustr
  | ProcStderr ustr
  | ExecFailed int
  | ExecSucceeded
  | ExecError ustr
  | HistoryLineSkipped          \<comment> \<open>the yellow warning of \<open>load_history\<close>\<close>
  | UserPrompt ustr
  | ModelPrefix ustr            \<comment> \<open>the name of the model before its streamed answer\<close>
  | Streamed json               \<comment> \<open>one fragment of the answer, as \<open>print(content)\<close> shows it\<close>
  | StreamNewline
  | FrameError exn
  | ModelFailed ustr
  | ModelError ustr exn
  | Rendered ustr               \<comment> \<open>\<open>print_with_typewriter\<close>\<close>
  | AskWrite ustr ustr
  | ShowCode ustr
  | AskWriteAgain ustr
  | RequestingChange
  | NoChangeGiven
  | AskNewName
  | AskWriteRenamed ustr ustr
  | Written ustr
  | WriteCancelled
  | NoNameGiven
  | WriteFailed ustr
  | WriteFailedAgain
  | PermissionsSet

text \<open>
  The part of the world the program changes: the lines the user will type, what was
  printed, the commands handed to \<open>subprocess.Popen\<close>, the files written, the
  in-memory \<open>history\<close>, the history file (\<open>None\<close> while it does not exist) and
  \<open>current_model\<close>.
\<close>

record world =
  stdin :: "ustr list"
  printed :: "event list"
  spawned :: "ustr list"
  files :: "ustr \<Rightarrow> ustr option"
  history :: "message list"
  history_file :: "ustr option"
  current_model :: ustr

text \<open>
  The part of the world the program only reads: the three API keys, the endpoints, the
  shell, the clock (\<open>str(datetime.now())\<close> and \<open>int(time.time())\<close>), the index
  \<open>random.choice\<close> draws, the working directory and which paths can be written.
\<close>

record env =
  key_openai :: ustr
  key_deepseek :: ustr
  key_xai :: ustr
  http_post :: "ustr \<Rightarrow> message list \<Rightarrow> response"
  run_shell :: "ustr \<Rightarrow> proc_result"
  now_text :: ustr
  unix_time :: nat
  random_index :: nat
  cwd :: ustr
  can_write :: "ustr \<Rightarrow> bool"

definition emit :: "event \<Rightarrow> world \<Rightarrow> world" where
  "emit ev w = w\<lparr>printed := printed w @ [ev]\<rparr>"

text \<open>\<open>input()\<close>: the next line the user types; \<open>EOFError\<close> when there is none.\<close>

definition input :: "world \<Rightarrow> (exn + ustr) \<times> world" where
  "input w = (case stdin w of
                [] \<Rightarrow> (Inl EOFError, w)
              | l # ls \<Rightarrow> (Inr l, w\<lparr>stdin := ls\<rparr>))"

section \<open>The history store\<close>

text \<open>
  \<open>SYSTEM_PROMPT\<close>, the 295 code points of the string of the source.
\<close>

definition SYSTEM_PROMPT :: ustr where
  "SYSTEM_PROMPT = [
     20320, 26159, 19968, 20010, 36731, 37327, 32423, 32456, 31471, 65, 73, 21161, 25163, 65292,
     20855, 26377, 20197, 19979, 33021, 21147, 58, 10, 49, 46, 32, 22238, 31572, 29992, 25143,
     30340, 25216, 26415, 38382, 39064, 65292, 23588, 20854, 25797, 38271, 76, 105, 110, 117,
     120, 47, 21629, 20196, 34892, 47, 32534, 31243, 30456, 20851, 38382, 39064, 10, 50, 46, 32,
     25552, 20379, 21629, 20196, 34892, 24314, 35758, 65292, 24182, 21487, 20197, 30452, 25509,
     25191, 34892, 21629, 20196, 10, 51, 46, 32, 29983, 25104, 20195, 30721, 24182, 21487, 20197,
     21019, 24314, 25991, 20214, 10, 20445, 25345, 19987, 19994, 12289, 31616, 27905, 30340,
     22238, 31572, 39118, 26684, 65292, 23613, 37327, 23569, 29992, 101, 109, 111, 106, 105,
     21644, 34920, 24773, 31526, 21495, 12290, 10, 10, 36755, 20986, 26684, 24335, 35268, 33539,
     65306, 10, 49, 46, 32, 24403, 25552, 20379, 21629, 20196, 26102, 65292, 20351, 29992, 20197,
     19979, 26684, 24335, 65306, 10, 96, 96, 96, 21629, 20196, 10, 20320, 30340, 21629, 20196,
     20869, 23481, 10, 96, 96, 96, 10, 10, 50, 46, 32, 24403, 25552, 20379, 33050, 26412, 26102,
     65292, 21153, 24517, 25351, 23450, 35821, 35328, 31867, 22411, 65292, 20351, 29992, 20197,
     19979, 26684, 24335, 65306, 10, 96, 96, 96, 112, 121, 116, 104, 111, 110, 10, 20320, 30340,
     80, 121, 116, 104, 111, 110, 20195, 30721, 10, 96, 96, 96, 10, 96, 96, 96, 106, 97, 118, 97,
     115, 99, 114, 105, 112, 116, 10, 20320, 30340, 74, 97, 118, 97, 83, 99, 114, 105, 112, 116,
     20195, 30721, 10, 96, 96, 96, 10, 96, 96, 96, 98, 97, 115, 104, 10, 20320, 30340, 66, 97,
     115, 104, 33050, 26412, 10, 96, 96, 96, 10, 22987, 32456, 22312, 20195, 30721, 22359, 20013,
     26126, 30830, 27880, 26126, 35821, 35328, 31867, 22411, 65292, 20197, 20415, 27491, 30830,
     35782, 21035, 12290]"

definition system_message :: message where
  "system_message = \<lparr>msg_role = JStr (asc ''system''), msg_content = JStr SYSTEM_PROMPT\<rparr>"

text \<open>
  The history file is read in text mode: \<open>\r\n\<close> and \<open>\r\<close> count as line ends, and
  the loop \<open>for line in f\<close> sees the lines one by one. A line is given here without its
  line end, which \<open>line.strip()\<close> removes in any case. The file is taken as the text
  it holds; its encoding as UTF-8 and failures of the file system are not modelled.
\<close>

fun universal_newlines :: "ustr \<Rightarrow> ustr" where
  "universal_newlines [] = []"
| "universal_newlines [c] = [if c = 13 then 10 else c]"
| "universal_newlines (c # d # cs) =
     (if c = 13 \<and> d = 10 then 10 # universal_newlines cs
      else if c = 13 then 10 # universal_newlines (d # cs)
      else c # universal_newlines (d # cs))"

definition file_lines :: "ustr \<Rightarrow> ustr list" where
  "file_lines f =
     (let ls = split_nl (universal_newlines f)
      in if last ls = [] then butlast ls else ls)"

text \<open>
  The loop of \<open>load_history\<close>. Only \<open>json.JSONDecodeError\<close> is caught; any other
  exception of the body leaves the function.
\<close>

fun load_lines :: "ustr list \<Rightarrow> message list \<Rightarrow> world \<Rightarrow> (exn + message list) \<times> world" where
  "load_lines [] result w = (Inr result, w)"
| "load_lines (line # ls) result w =
     (case json_loads (strip line) of
        Inl e \<Rightarrow>
          (if e = JSONDecodeError then load_lines ls result (emit HistoryLineSkipped w)
           else (Inl e, w))
      | Inr msg \<Rightarrow>
          (case subscript msg (asc ''role'') of
             Inl e \<Rightarrow> (Inl e, w)
           | Inr r \<Rightarrow>
               (case subscript msg (asc ''content'') of
                  Inl e \<Rightarrow> (Inl e, w)
                | Inr c \<Rightarrow>
                    load_lines ls (result @ [\<lparr>msg_role = r, msg_content = c\<rparr>]) w)))"

definition load_history :: "world \<Rightarrow> (exn + message list) \<times> world" where
  "load_history w =
     (case history_file w of
        None \<Rightarrow> (Inr [system_message], w)
      | Some f \<Rightarrow> load_lines (file_lines f) [system_message] w)"

text \<open>
  The line \<open>save_to_history\<close> writes: \<open>json.dumps\<close> of the dictionary with the keys
  \<open>time\<close>, \<open>role\<close> and \<open>content\<close>. The first argument is \<open>str(datetime.now())\<close>
  at the call.
\<close>

definition dumps_message :: "ustr \<Rightarrow> ustr \<Rightarrow> ustr \<Rightarrow> ustr" where
  "dumps_message now role content' =
     [123] @ encode_string (asc ''time'') @ asc '': '' @ encode_string now @ asc '', '' @
     encode_string (asc ''role'') @ asc '': '' @ encode_string role @ asc '', '' @
     encode_string (asc ''content'') @ asc '': '' @ encode_string content' @ [125]"

text \<open>
  A text can be written to a UTF-8 file when it has no surrogate code point
  (\<open>U+D800\<close> to \<open>U+DFFF\<close>); \<open>f.write\<close> raises \<open>UnicodeEncodeError\<close> otherwise.
\<close>

definition encodable :: "ustr \<Rightarrow> bool" where
  "encodable s = (\<forall>c\<in>set s. c < 55296 \<or> 57343 < c)"

text \<open>
  \<open>save_to_history\<close> opens the file for appending, which creates it, and writes the
  line and a newline in one \<open>write\<close>: when the line cannot be encoded nothing is
  written and the exception leaves the function.
\<close>

definition save_to_history :: "ustr \<Rightarrow> ustr \<Rightarrow> ustr \<Rightarrow> world \<Rightarrow> (exn + unit) \<times> world" where
  "save_to_history now role content' w =
     (let f = (case history_file w of None \<Rightarrow> [] | Some f \<Rightarrow> f);
          line = dumps_message now role content'
      in if encodable (line @ [10])
         then (Inr (), w\<lparr>history_file := Some (f @ line @ [10])\<rparr>)
         else (Inl UnicodeEncodeError, w\<lparr>history_file := Some f\<rparr>))"

section \<open>The action executor: commands\<close>

text \<open>
  \<open>execute_command\<close> hands the command to the shell, mirrors what the child writes
  and reports success by the return code. It catches every exception itself.
\<close>

definition execute_command :: "env \<Rightarrow> ustr \<Rightarrow> world \<Rightarrow> (ustr \<times> bool) \<times> world" where
  "execute_command e command w =
     (let w1 = (emit (Executing command) w)\<lparr>spawned := spawned w @ [command]\<rparr>
      in case run_shell e command of
           SpawnFailed error_msg \<Rightarrow> ((error_msg, False), emit (ExecError error_msg) w1)
         | Exited stdout_output stderr_output return_code \<Rightarrow>
             (let success = (return_code = 0);
                  output = (if stderr_output \<noteq> [] \<and> \<not> success
                            then stdout_output @ [10] @ stderr_output else stdout_output);
                  w2 = emit (ProcStderr stderr_output) (emit (ProcStdout stdout_output) w1)
              in ((output, success),
                  emit (if success then ExecSucceeded else ExecFailed return_code) w2)))"

fun handle_commands :: "env \<Rightarrow> ustr list \<Rightarrow> world \<Rightarrow> (exn + unit) \<times> world" where
  "handle_commands e [] w = (Inr (), w)"
| "handle_commands e (cmd # cmds) w =
     (if is_dangerous_command cmd
      then handle_commands e cmds (emit (RefusedDangerous cmd) w)
      else (case input (emit (AskExecute cmd) w) of
              (Inl x, w1) \<Rightarrow> (Inl x, w1)
            | (Inr line, w1) \<Rightarrow>
                (if lower (strip line) = asc ''y''
                 then handle_commands e cmds (snd (execute_command e cmd w1))
                 else handle_commands e cmds (emit CancelledExecute w1))))"

text \<open>
  A small world for the examples: the user types \<open>y\<close> to every question, nothing has
  happened yet, no provider has a key and no endpoint answers.
\<close>

definition demo_world :: world where
  "demo_world = \<lparr>stdin = [asc ''y'', asc ''y'', asc ''y''], printed = [], spawned = [],
     files = (\<lambda>_. None), history = [], history_file = None,
     current_model = asc ''openai''\<rparr>"

definition demo_env :: env where
  "demo_env = \<lparr>key_openai = [], key_deepseek = [], key_xai = [],
     http_post = (\<lambda>_ _. NoResponse), run_shell = (\<lambda>_. Exited [] [] 0),
     now_text = asc ''2024-01-01 00:00:00.000000'', unix_time = 1704067200,
     random_index = 0, cwd = asc ''/home/user'', can_write = (\<lambda>_. True)\<rparr>"

section \<open>Evaluation and basic facts\<close>

lemma is_word_ascii:
  "c < 128 \<Longrightarrow> is_word c =
     ((48 \<le> c \<and> c \<le> 57) \<or> (65 \<le> c \<and> c \<le> 90) \<or> c = 95 \<or> (97 \<le> c \<and> c \<le> 122))"
  by (simp add: is_word_def)

lemmas rx_eval = asc_def is_space_def is_word_ascii adv_def word_opt_def rep_counts_def
  group_def group_text_def re_match_def re_search_def

lemma spawned_emit [simp]: "spawned (emit ev w) = spawned w"
  by (simp add: emit_def)

lemma stdin_emit [simp]: "stdin (emit ev w) = stdin w"
  by (simp add: emit_def)

lemma spawned_input [simp]: "spawned (snd (input w)) = spawned w"
  by (simp add: input_def split: list.splits)

lemma spawned_execute_command:
  "spawned (snd (execute_command e command w)) = spawned w @ [command]"
  by (simp add: execute_command_def Let_def split: proc_result.splits)

lemma line_command_safe: "line_command l = Some c \<Longrightarrow> \<not> is_dangerous_command c"
  by (auto simp: line_command_def Let_def split: option.splits if_splits)

lemma process_response_safe:
  "c \<in> set (snd (snd (process_response response))) \<Longrightarrow> \<not> is_dangerous_command c"
  by (auto simp: process_response_def Let_def List.map_filter_def dest: line_command_safe)

lemma handle_commands_spawned:
  "set (spawned (snd (handle_commands e cmds w)))
     \<subseteq> set (spawned w) \<union> {c \<in> set cmds. \<not> is_dangerous_command c}"
proof (induction cmds arbitrary: w)
  case Nil
  then show ?case by simp
next
  case (Cons cmd cmds)
  show ?case
  proof (cases "is_dangerous_command cmd")
    case True
    then show ?thesis using Cons.IH [of "emit (RefusedDangerous cmd) w"] by auto
  next
    case False
    obtain r w1 where inp: "input (emit (AskExecute cmd) w) = (r, w1)"
      by (cases "input (emit (AskExecute cmd) w)")
    then have sp: "spawned w1 = spawned w"
      using spawned_input [of "emit (AskExecute cmd) w"] by simp
    show ?thesis
    proof (cases r)
      case (Inl x)
      then show ?thesis using False inp sp by auto
    next
      case (Inr line)
      show ?thesis
      proof (cases "lower (strip line) = asc ''y''")
        case True
        then show ?thesis
          using False inp Inr sp Cons.IH [of "snd (execute_command e cmd w1)"]
          by (auto simp: spawned_execute_command)
      next
        case no: False
        then show ?thesis
          using False inp Inr sp Cons.IH [of "emit CancelledExecute w1"] by auto
      qed
    qed
  qed
qed

subsection \<open>The matcher\<close>

lemma adv_simps:
  "adv k (p, s, g) = (if k = 0 then p else Some (s ! (k - 1)), drop k s, g)"
  by (simp add: adv_def)

lemma rep_counts_le: "k \<in> set (rep_counts c n b s) \<Longrightarrow> n \<le> k \<and> k \<le> length (takeWhile (cc_mem c) s)"
  by (auto simp: rep_counts_def Let_def split: if_splits)

lemma rmatch_suffix:
  "m \<in> set (rmatch r st) \<Longrightarrow> \<exists>j. j \<le> length (fst (snd st)) \<and> fst (snd m) = drop j (fst (snd st))"
proof (induction r arbitrary: st m)
  case (Lit l)
  then show ?case
    by (cases st) (auto simp: adv_simps prefix_def split: if_splits intro!: exI [of _ "length l"])
next
  case (Rep c n b)
  then obtain k where k: "k \<in> set (rep_counts c n b (fst (snd st)))" and m: "m = adv k st"
    by auto
  have "k \<le> length (fst (snd st))"
    using rep_counts_le [OF k] length_takeWhile_le [of "cc_mem c" "fst (snd st)"] by linarith
  then show ?case using m by (cases st) (auto simp: adv_simps)
next
  case (Seq a b)
  then obtain m1 where m1: "m1 \<in> set (rmatch a st)" and m2: "m \<in> set (rmatch b m1)"
    by auto
  from Seq.IH(1) [OF m1] obtain j1 where j1: "j1 \<le> length (fst (snd st))"
    "fst (snd m1) = drop j1 (fst (snd st))" by blast
  from Seq.IH(2) [OF m2] obtain j2 where j2: "j2 \<le> length (fst (snd m1))"
    "fst (snd m) = drop j2 (fst (snd m1))" by blast
  have "j1 + j2 \<le> length (fst (snd st))" using j1 j2 by simp
  moreover have "fst (snd m) = drop (j1 + j2) (fst (snd st))"
    using j1 j2 by (simp add: add.commute)
  ultimately show ?case by blast
next
  case (Alt a b)
  from Alt.prems have "m \<in> set (rmatch a st) \<or> m \<in> set (rmatch b st)" by simp
  then show ?case using Alt.IH by blast
next
  case (Opt a)
  from Opt.prems have "m \<in> set (rmatch a st) \<or> m = st" by auto
  then show ?case
  proof
    assume "m \<in> set (rmatch a st)"
    then show ?thesis by (rule Opt.IH)
  next
    assume "m = st"
    then show ?thesis by (intro exI [of _ 0]) simp
  qed
next
  case (Grp i a)
  from Grp.prems obtain m' where m': "m' \<in> set (rmatch a st)" and "fst (snd m) = fst (snd m')"
    by auto
  then show ?case using Grp.IH [OF m'] by simp
next
  case WordB
  then show ?case by (auto intro: exI [of _ 0] split: if_splits)
next
  case Bol
  then show ?case by (auto intro: exI [of _ 0] split: if_splits)
next
  case Eol
  then show ?case by (auto intro: exI [of _ 0] split: if_splits)
next
  case BolM
  then show ?case by (auto intro: exI [of _ 0] split: if_splits)
next
  case EolM
  then show ?case by (auto intro: exI [of _ 0] split: if_splits)
qed

lemma rmatch_Lit_nonempty:
  "l \<noteq> [] \<Longrightarrow> rmatch (Lit l) (p, s, g) =
     (if prefix l s then [(Some (last l), drop (length l) s, g)] else [])"
  by (auto simp: adv_simps prefix_def nth_append last_conv_nth)

lemma concat_map_cong_set:
  "(\<And>x. x \<in> set xs \<Longrightarrow> f x = h x) \<Longrightarrow> concat (map f xs) = concat (map h xs)"
  by (induction xs) auto

lemma rmatch_Grp_Rep_Lit:
  assumes "l \<noteq> []"
  shows "rmatch (Seq (Grp i (Rep c 0 b)) (Seq (Lit l) R)) (p, s, g) =
     concat (map (\<lambda>k. if prefix l (drop k s)
                       then rmatch R (Some (last l), drop (k + length l) s, (i, take k s) # g)
                       else [])
                 (rep_counts c 0 b s))"
proof -
  have "rmatch (Seq (Grp i (Rep c 0 b)) (Seq (Lit l) R)) (p, s, g) =
     concat (map (\<lambda>k. rmatch (Seq (Lit l) R)
        (fst (adv k (p, s, g)), drop k s, (i, take (length s - length (drop k s)) s) # g))
        (rep_counts c 0 b s))"
    by (subst rmatch.simps(3)) (simp add: comp_def adv_simps del: rmatch.simps(3) rmatch.simps(1))
  also have "\<dots> = concat (map (\<lambda>k. if prefix l (drop k s)
                       then rmatch R (Some (last l), drop (k + length l) s, (i, take k s) # g)
                       else [])
                 (rep_counts c 0 b s))"
  proof (rule concat_map_cong_set)
    fix k assume "k \<in> set (rep_counts c 0 b s)"
    then have "k \<le> length s"
      using rep_counts_le length_takeWhile_le [of "cc_mem c" s] by (metis le_trans)
    then show "rmatch (Seq (Lit l) R)
        (fst (adv k (p, s, g)), drop k s, (i, take (length s - length (drop k s)) s) # g) =
       (if prefix l (drop k s)
        then rmatch R (Some (last l), drop (k + length l) s, (i, take k s) # g) else [])"
      using assms by (simp add: rmatch_Lit_nonempty add.commute del: rmatch.simps(1))
  qed
  finally show ?thesis .
qed

lemma rmatch_Grp_Rep_Lit_end:
  assumes "l \<noteq> []"
  shows "rmatch (Seq (Grp i (Rep c 0 b)) (Lit l)) (p, s, g) =
     concat (map (\<lambda>k. if prefix l (drop k s)
                       then [(Some (last l), drop (k + length l) s, (i, take k s) # g)]
                       else [])
                 (rep_counts c 0 b s))"
proof -
  have "rmatch (Seq (Grp i (Rep c 0 b)) (Lit l)) (p, s, g) =
     concat (map (\<lambda>k. rmatch (Lit l)
        (fst (adv k (p, s, g)), drop k s, (i, take (length s - length (drop k s)) s) # g))
        (rep_counts c 0 b s))"
    by (simp add: map_concat comp_def adv_simps del: rmatch.simps(1))
  also have "\<dots> = concat (map (\<lambda>k. if prefix l (drop k s)
                       then [(Some (last l), drop (k + length l) s, (i, take k s) # g)]
                       else [])
                 (rep_counts c 0 b s))"
  proof (rule concat_map_cong_set)
    fix k assume "k \<in> set (rep_counts c 0 b s)"
    then have "k \<le> length s"
      using rep_counts_le length_takeWhile_le [of "cc_mem c" s] by (metis le_trans)
    then show "rmatch (Lit l)
        (fst (adv k (p, s, g)), drop k s, (i, take (length s - length (drop k s)) s) # g) =
       (if prefix l (drop k s)
        then [(Some (last l), drop (k + length l) s, (i, take k s) # g)] else [])"
      using assms by (simp add: rmatch_Lit_nonempty add.commute del: rmatch.simps(1))
  qed
  finally show ?thesis .
qed


lemma rmatch_Lit_Seq:
  "l \<noteq> [] \<Longrightarrow> rmatch (Seq (Lit l) R) (p, s, g) =
     (if prefix l s then rmatch R (Some (last l), drop (length l) s, g) else [])"
  by (subst rmatch.simps(3)) (simp add: rmatch_Lit_nonempty del: rmatch.simps)

lemma rep_counts_greedy0:
  "rep_counts c 0 True s = rev [0..<Suc (length (takeWhile (cc_mem c) s))]"
  by (simp add: rep_counts_def)

lemma rep_counts_lazy_any: "rep_counts AnyChar 0 False s = [0..<Suc (length s)]"
proof -
  have h: "takeWhile (cc_mem AnyChar) s = s" by (induction s) simp_all
  show ?thesis by (simp add: rep_counts_def h)
qed

lemma concat_rev_upt_last:
  "(\<And>k. k < n \<Longrightarrow> f k = []) \<Longrightarrow> concat (map f (rev [0..<Suc n])) = f n"
  by simp

lemma not_word_10: "\<not> is_word 10"
  by (simp add: is_word_ascii)

lemma word_run_no_newline:
  assumes "k < length (takeWhile is_word s)"
  shows "\<not> prefix [10] (drop k s)"
proof -
  have ks: "k < length s"
    using assms length_takeWhile_le [of is_word s] by linarith
  have "takeWhile is_word s ! k \<in> set (takeWhile is_word s)"
    using assms by (rule nth_mem)
  then have "is_word (takeWhile is_word s ! k)"
    by (rule set_takeWhileD [THEN conjunct2])
  then have "is_word (s ! k)"
    using assms by (simp add: takeWhile_nth)
  then have "s ! k \<noteq> 10" using not_word_10 by auto
  moreover have "drop k s = s ! k # drop (Suc k) s"
    using ks by (simp add: Cons_nth_drop_Suc)
  ultimately show ?thesis by simp
qed



lemma rmatch_Lit_Seq_append:
  "l \<noteq> [] \<Longrightarrow> rmatch (Seq (Lit l) R) (p, l @ s, g) = rmatch R (Some (last l), s, g)"
  by (simp add: rmatch_Lit_Seq del: rmatch.simps)

lemma rmatch_Lit_Seq_no:
  "\<not> prefix l s \<Longrightarrow> rmatch (Seq (Lit l) R) (p, s, g) = []"
  by (cases "l = []") (simp_all add: rmatch_Lit_Seq del: rmatch.simps)

lemma rmatch_code_block_pattern_no:
  "\<not> prefix (asc ''```'') s \<Longrightarrow> rmatch code_block_pattern (p, s, g) = []"
  unfolding code_block_pattern_def seqs.simps by (rule rmatch_Lit_Seq_no)

lemma rmatch_code_block_pattern:
  "rmatch code_block_pattern (p, asc ''```'' @ s1, g) =
     (if prefix [10] (dropWhile is_word s1)
      then concat (map (\<lambda>k. if prefix (10 # asc ''```'') (drop k (tl (dropWhile is_word s1)))
                            then [(Some 96,
                                   drop (k + length (10 # asc ''```''))
                                     (tl (dropWhile is_word s1)),
                                   (2, take k (tl (dropWhile is_word s1))) #
                                   (1, takeWhile is_word s1) # g)]
                            else [])
                       [0..<Suc (length (tl (dropWhile is_word s1)))])
      else [])"
proof -
  define n where "n = length (takeWhile is_word s1)"
  define F where "F = (\<lambda>k. if prefix [10] (drop k s1)
       then rmatch (Seq (Grp 2 (Rep AnyChar 0 False)) (Lit (10 # asc ''```'')))
              (Some (last [10]), drop (k + length [10::nat]) s1, (1, take k s1) # g)
       else [])"
  have dn: "drop n s1 = dropWhile is_word s1"
    unfolding n_def by (rule dropWhile_eq_drop [symmetric])
  have tn: "take n s1 = takeWhile is_word s1"
    unfolding n_def by (rule takeWhile_eq_take [symmetric])
  have "drop (n + length [10::nat]) s1 = tl (drop n s1)"
    by (simp add: drop_Suc tl_drop)
  then have dsn: "drop (n + length [10::nat]) s1 = tl (dropWhile is_word s1)"
    by (simp only: dn)
  have ne: "asc ''```'' \<noteq> []" by (simp add: asc_def)
  have "rmatch code_block_pattern (p, asc ''```'' @ s1, g) =
        rmatch (Seq (Grp 1 (Rep Word 0 True))
                 (Seq (Lit [10]) (Seq (Grp 2 (Rep AnyChar 0 False)) (Lit (10 # asc ''```'')))))
          (Some (last (asc ''```'')), s1, g)"
    unfolding code_block_pattern_def seqs.simps by (rule rmatch_Lit_Seq_append [OF ne])
  also have "\<dots> = concat (map F (rep_counts Word 0 True s1))"
    unfolding F_def by (rule rmatch_Grp_Rep_Lit) simp
  also have "\<dots> = concat (map F (rev [0..<Suc n]))"
  proof -
    have cw: "cc_mem Word = is_word" by (rule ext) simp
    show ?thesis by (simp only: rep_counts_greedy0 n_def cw)
  qed
  also have "\<dots> = F n"
  proof (rule concat_rev_upt_last)
    fix k assume "k < n"
    then have "\<not> prefix [10] (drop k s1)"
      unfolding n_def by (rule word_run_no_newline)
    then show "F k = []"
      unfolding F_def by (simp only: if_False)
  qed
  also have "\<dots> = (if prefix [10] (dropWhile is_word s1)
       then rmatch (Seq (Grp 2 (Rep AnyChar 0 False)) (Lit (10 # asc ''```'')))
              (Some (last [10]), tl (dropWhile is_word s1), (1, takeWhile is_word s1) # g)
       else [])"
    unfolding F_def by (simp only: dn tn dsn)
  also have "\<dots> = (if prefix [10] (dropWhile is_word s1)
      then concat (map (\<lambda>k. if prefix (10 # asc ''```'') (drop k (tl (dropWhile is_word s1)))
                            then [(Some 96,
                                   drop (k + length (10 # asc ''```''))
                                     (tl (dropWhile is_word s1)),
                                   (2, take k (tl (dropWhile is_word s1))) #
                                   (1, takeWhile is_word s1) # g)]
                            else [])
                       [0..<Suc (length (tl (dropWhile is_word s1)))])
      else [])"
  proof -
    have l: "last (10 # asc ''```'') = 96" by (simp add: asc_def)
    show ?thesis
      by (subst rmatch_Grp_Rep_Lit_end) (simp_all only: rep_counts_lazy_any l list.distinct not_False_eq_True)
  qed
  finally show ?thesis .
qed

subsection \<open>Scanning for code blocks\<close>

lemma finditer_from_Nil_Nil:
  "rmatch r (p, [], []) = [] \<Longrightarrow> finditer_from r off p [] = []"
  by (subst finditer_from.simps) simp

lemma finditer_from_Nil_Cons:
  "rmatch r (p, c # cs, []) = [] \<Longrightarrow>
     finditer_from r off p (c # cs) = finditer_from r (Suc off) (Some c) cs"
  by (subst finditer_from.simps) simp

lemma finditer_from_match:
  "rmatch r (p, s, []) = m # ms \<Longrightarrow> length s - length (fst (snd m)) \<noteq> 0 \<Longrightarrow>
     finditer_from r off p s =
       (off, off + (length s - length (fst (snd m))), m) #
       finditer_from r (off + (length s - length (fst (snd m)))) (fst m) (fst (snd m))"
  by (subst finditer_from.simps) simp

lemma finditer_from_empty_match:
  "rmatch r (p, s, []) = m # ms \<Longrightarrow> length s - length (fst (snd m)) = 0 \<Longrightarrow>
     finditer_from r off p s =
       (off, off, m) #
       (case s of [] \<Rightarrow> [] | c # cs \<Rightarrow> finditer_from r (Suc off) (Some c) cs)"
  by (subst finditer_from.simps) simp


lemma finditer_from_sound:
  "x \<in> set (finditer_from r off p s) \<Longrightarrow>
     \<exists>p' j. j \<le> length s \<and> fst x = off + j \<and> snd (snd x) \<in> set (rmatch r (p', drop j s, []))"
proof (induction r off p s rule: finditer_from.induct)
  case (1 r off p s)
  note prem = \<open>x \<in> set (finditer_from r off p s)\<close>
  show ?case
  proof (cases "rmatch r (p, s, [])")
    case Nil
    show ?thesis
    proof (cases s)
      case Nil2: Nil
      have "finditer_from r off p [] = []"
        using Nil Nil2 by (simp only: finditer_from_Nil_Nil)
      then show ?thesis using prem Nil2 by simp
    next
      case (Cons c cs)
      have "finditer_from r off p s = finditer_from r (Suc off) (Some c) cs"
        using Nil Cons by (simp only: finditer_from_Nil_Cons)
      then have "x \<in> set (finditer_from r (Suc off) (Some c) cs)"
        using prem by simp
      from "1.IH"(1) [OF Nil Cons this] obtain p' j where
        "j \<le> length cs" "fst x = Suc off + j" "snd (snd x) \<in> set (rmatch r (p', drop j cs, []))"
        by blast
      then show ?thesis using Cons
        by (intro exI [of _ p'] exI [of _ "Suc j"]) simp
    qed
  next
    case (Cons m ms)
    have here: "m \<in> set (rmatch r (p, drop 0 s, []))" using Cons by simp
    have "m \<in> set (rmatch r (p, s, []))" using Cons by simp
    from rmatch_suffix [OF this] obtain j0 where j0: "j0 \<le> length s" "fst (snd m) = drop j0 s"
      by auto
    have n: "length s - length (fst (snd m)) = j0" using j0 by simp
    show ?thesis
    proof (cases "j0 = 0")
      case True
      have z: "length s - length (fst (snd m)) = 0" using n True by simp
      have eq: "finditer_from r off p s = (off, off, m) #
          (case s of [] \<Rightarrow> [] | c # cs \<Rightarrow> finditer_from r (Suc off) (Some c) cs)"
        using Cons z by (rule finditer_from_empty_match)
      show ?thesis
      proof (cases "x = (off, off, m)")
        case True
        then show ?thesis using here by (intro exI [of _ p] exI [of _ 0]) simp
      next
        case False
        then obtain c cs where s: "s = c # cs"
          and xin: "x \<in> set (finditer_from r (Suc off) (Some c) cs)"
          using prem eq by (cases s) auto
        from "1.IH"(2) [OF Cons z s xin] obtain p' j where
          "j \<le> length cs" "fst x = Suc off + j"
          "snd (snd x) \<in> set (rmatch r (p', drop j cs, []))"
          by blast
        then show ?thesis using s
          by (intro exI [of _ p'] exI [of _ "Suc j"]) simp
      qed
    next
      case False
      then have nz: "length s - length (fst (snd m)) \<noteq> 0" using n by simp
      have eq: "finditer_from r off p s =
          (off, off + (length s - length (fst (snd m))), m) #
          finditer_from r (off + (length s - length (fst (snd m)))) (fst m) (fst (snd m))"
        using Cons nz by (rule finditer_from_match)
      show ?thesis
      proof (cases "x = (off, off + (length s - length (fst (snd m))), m)")
        case True
        then show ?thesis using here by (intro exI [of _ p] exI [of _ 0]) simp
      next
        case False
        then have "x \<in> set (finditer_from r (off + (length s - length (fst (snd m))))
                     (fst m) (fst (snd m)))" using prem eq by simp
        from "1.IH"(3) [OF Cons nz this] obtain p' j where
          j: "j \<le> length (fst (snd m))" "fst x = off + (length s - length (fst (snd m))) + j"
          "snd (snd x) \<in> set (rmatch r (p', drop j (fst (snd m)), []))"
          by blast
        have "j0 + j \<le> length s" using j(1) j0 by simp
        moreover have "fst x = off + (j0 + j)" using j(2) n by simp
        moreover have "snd (snd x) \<in> set (rmatch r (p', drop (j0 + j) s, []))"
          using j(3) j0(2) by (simp add: add.commute)
        ultimately show ?thesis by blast
      qed
    qed
  qed
qed


lemma code_block_match_shape:
  assumes "m \<in> set (rmatch code_block_pattern (p, s, g))"
  shows "\<exists>s1. s = asc ''```'' @ s1 \<and> prefix [10] (dropWhile is_word s1) \<and>
           group_text m 1 = takeWhile is_word s1"
proof (cases "prefix (asc ''```'') s")
  case False
  then show ?thesis using assms rmatch_code_block_pattern_no [of s p g] by simp
next
  case True
  then obtain s1 where s: "s = asc ''```'' @ s1" by (auto elim: prefixE)
  have pre: "prefix [10] (dropWhile is_word s1)"
  proof (rule ccontr)
    assume "\<not> prefix [10] (dropWhile is_word s1)"
    then have "rmatch code_block_pattern (p, s, g) = []"
      unfolding s by (simp only: rmatch_code_block_pattern if_False)
    then show False using assms by simp
  qed
  have "group_text m 1 = takeWhile is_word s1"
    using assms pre unfolding s
    by (simp only: rmatch_code_block_pattern if_True)
       (auto simp: group_text_def group_def split: if_splits)
  then show ?thesis using s pre by blast
qed

lemma lower_run_above:
  "list_all (\<lambda>r. 43 < snd (snd (snd r))) rs \<Longrightarrow> 43 < c \<Longrightarrow> 43 < lower_run rs c"
  by (induction rs c rule: lower_run.induct) auto

lemma lower_runs_above: "list_all (\<lambda>r. 43 < snd (snd (snd r))) lower_runs"
  by (simp add: lower_runs_def)

lemma lower_cp_keeps_plus: "43 \<in> set (lower_cp c) \<Longrightarrow> c = 43"
  using lower_run_above [OF lower_runs_above, of c]
  by (auto simp: lower_cp_def split: if_splits)

lemma final_sigma_values: "final_sigma b a = 962 \<or> final_sigma b a = 963"
  by (simp add: final_sigma_def split: list.splits)

lemma lower_from_keeps_plus: "43 \<in> set (lower_from b s) \<Longrightarrow> 43 \<in> set s"
proof (induction s arbitrary: b)
  case Nil
  then show ?case by simp
next
  case (Cons c cs)
  show ?case
  proof (cases "43 \<in> set (lower_from (c # b) cs)")
    case True
    then show ?thesis using Cons.IH by simp
  next
    case False
    then have "43 \<in> set (if c = 931 then [final_sigma b cs] else lower_cp c)"
      using Cons.prems by simp
    then have "c = 43"
      using final_sigma_values [of b cs] lower_cp_keeps_plus [of c]
      by (auto split: if_splits)
    then show ?thesis by simp
  qed
qed

lemma lower_keeps_plus: "43 \<in> set (lower s) \<Longrightarrow> 43 \<in> set s"
  unfolding lower_def by (rule lower_from_keeps_plus)

lemma not_word_43: "\<not> is_word 43"
  by (simp add: is_word_ascii)

lemma word_text_bash: "list_all is_word (asc ''text'')" "list_all is_word (asc ''bash'')"
  by (simp_all add: asc_def is_word_ascii)

lemma make_block_language:
  "list_all is_word (group_text st 1) \<Longrightarrow> list_all is_word (language (make_block (s, e, st)))"
  by (simp add: make_block_def Let_def word_text_bash)

lemma detect_code_blocks_shape:
  assumes "b \<in> set (detect_code_blocks text)"
  shows "list_all is_word (language b) \<and>
         (\<exists>tag rest. list_all is_word tag \<and> drop (start b) text = asc ''```'' @ tag @ 10 # rest)"
proof -
  from assms obtain x where x: "x \<in> set (finditer_from code_block_pattern 0 None text)"
    and b: "b = make_block x"
    by (auto simp: detect_code_blocks_def finditer_def)
  obtain st e m where xm: "x = (st, e, m)" by (cases x)
  from finditer_from_sound [OF x] obtain p' j where
    j: "j \<le> length text" "st = j" "m \<in> set (rmatch code_block_pattern (p', drop j text, []))"
    using xm by auto
  from code_block_match_shape [OF j(3)] obtain s1 where
    s1: "drop j text = asc ''```'' @ s1" "prefix [10] (dropWhile is_word s1)"
        "group_text m 1 = takeWhile is_word s1" by blast
  have w: "list_all is_word (takeWhile is_word s1)"
    by (simp add: list_all_iff) (meson set_takeWhileD)
  obtain rest where rest: "dropWhile is_word s1 = 10 # rest"
    using s1(2) by (auto simp: prefix_def)
  have "s1 = takeWhile is_word s1 @ 10 # rest"
    using rest takeWhile_dropWhile_id [of is_word s1] by simp
  then have "drop j text = asc ''```'' @ takeWhile is_word s1 @ 10 # rest"
    using s1(1) by simp
  moreover have "start b = j"
    using b xm j(2) by (simp add: make_block_def Let_def)
  moreover have "list_all is_word (language b)"
    using b xm w s1(3) by (simp add: make_block_language)
  ultimately show ?thesis using w by blast
qed

lemma word_tag_not_cpp:
  assumes "list_all is_word l"
  shows "lower l \<noteq> asc ''c++''"
proof
  assume "lower l = asc ''c++''"
  then have "43 \<in> set (lower l)" by (simp add: asc_def)
  then have "43 \<in> set l" by (rule lower_keeps_plus)
  then have "is_word 43" using assms by (simp add: list_all_iff)
  then show False using not_word_43 by simp
qed


lemma contains_drop: "prefix pat (drop k s) \<Longrightarrow> contains pat s"
proof (induction s arbitrary: k)
  case Nil
  then show ?case by simp
next
  case (Cons c cs)
  show ?case
  proof (cases k)
    case 0
    then show ?thesis using Cons.prems by simp
  next
    case (Suc k')
    then have "prefix pat (drop k' cs)" using Cons.prems by simp
    then have "contains pat cs" by (rule Cons.IH)
    then show ?thesis by simp
  qed
qed

lemma concat_upt_first:
  assumes "m \<le> n" and "\<And>k. k < m \<Longrightarrow> f k = []"
  shows "concat (map f [0..<Suc n]) = f m @ concat (map f [Suc m..<Suc n])"
proof -
  have "[0..<Suc n] = [0..<m] @ [m..<Suc n]"
    using upt_add_eq_append [of 0 m "Suc n - m"] assms(1) by simp
  moreover have "[m..<Suc n] = m # [Suc m..<Suc n]"
    using assms(1) by (simp add: upt_conv_Cons del: upt_Suc)
  ultimately have "[0..<Suc n] = [0..<m] @ m # [Suc m..<Suc n]"
    by simp
  moreover have "concat (map f [0..<m]) = []"
    using assms(2) by simp
  ultimately show ?thesis by simp
qed

lemma fence_not_early:
  assumes "\<not> contains (10 # asc ''```'') body" and "k < length body"
  shows "\<not> prefix (10 # asc ''```'') (drop k (body @ 10 # asc ''```''))"
proof
  assume a: "prefix (10 # asc ''```'') (drop k (body @ 10 # asc ''```''))"
  define c where "c = drop k body"
  have ne: "c \<noteq> []" using assms(2) by (simp add: c_def)
  have np: "\<not> prefix (10 # asc ''```'') c"
    using assms(1) contains_drop [of "10 # asc ''```''" k body] by (auto simp: c_def)
  have a': "prefix (10 # asc ''```'') (c @ 10 # asc ''```'')"
    using a assms(2) by (simp add: c_def)
  show False
  proof (cases c)
    case Nil
    then show ?thesis using ne by simp
  next
    case (Cons x1 c1)
    show ?thesis
    proof (cases c1)
      case Nil
      then show ?thesis using a' Cons by (simp add: asc_def)
    next
      case (Cons x2 c2)
      note C2 = this
      show ?thesis
      proof (cases c2)
        case Nil
        then show ?thesis using a' \<open>c = x1 # c1\<close> C2 by (simp add: asc_def)
      next
        case (Cons x3 c3)
        note C3 = this
        show ?thesis
        proof (cases c3)
          case Nil
          then show ?thesis using a' \<open>c = x1 # c1\<close> C2 C3 by (simp add: asc_def)
        next
          case (Cons x4 c4)
          then show ?thesis using a' np \<open>c = x1 # c1\<close> C2 C3 by (simp add: asc_def)
        qed
      qed
    qed
  qed
qed

lemma word_run_of_tag:
  assumes "list_all is_word tag"
  shows "takeWhile is_word (tag @ 10 # r) = tag" and "dropWhile is_word (tag @ 10 # r) = 10 # r"
  using assms not_word_10 by (simp_all add: list_all_iff)

lemma detect_serialized:
  assumes "list_all is_word tag" and "\<not> contains (10 # asc ''```'') body"
  shows "detect_code_blocks (asc ''```'' @ tag @ [10] @ body @ [10] @ asc ''```'') =
     [make_block (0, length (asc ''```'' @ tag @ [10] @ body @ [10] @ asc ''```''),
        (Some 96, [], [(2, body), (1, tag)]))]"
proof -
  define S where "S = asc ''```'' @ tag @ [10] @ body @ [10] @ asc ''```''"
  define x :: rstate where "x = (Some 96, [], [(2, body), (1, tag)])"
  define f :: "nat \<Rightarrow> rstate list"
    where "f = (\<lambda>k. if prefix (10 # asc ''```'') (drop k (body @ 10 # asc ''```''))
        then [(Some 96, drop (k + length (10 # asc ''```'')) (body @ 10 # asc ''```''),
               [(2, take k (body @ 10 # asc ''```'')), (1, tag)])]
        else [])"
  have S: "S = asc ''```'' @ (tag @ 10 # body @ 10 # asc ''```'')"
    by (simp add: S_def)
  have rm: "rmatch code_block_pattern (None, S, []) =
      concat (map f [0..<Suc (length (body @ 10 # asc ''```''))])"
    unfolding S f_def
    by (simp only: rmatch_code_block_pattern word_run_of_tag [OF assms(1)] list.sel)
       (simp del: upt_Suc)
  have early: "\<And>k. k < length body \<Longrightarrow> f k = []"
    using fence_not_early [OF assms(2)] by (simp add: f_def)
  have at: "f (length body) = [x]"
    by (simp add: f_def x_def)
  have "rmatch code_block_pattern (None, S, []) =
      x # concat (map f [Suc (length body)..<Suc (length (body @ 10 # asc ''```''))])"
    unfolding rm using concat_upt_first [of "length body" "length (body @ 10 # asc ''```'')" f] early at
    by simp
  moreover have "length S - length (fst (snd x)) \<noteq> 0"
    by (simp add: S_def x_def asc_def)
  ultimately have "finditer_from code_block_pattern 0 None S =
       (0, 0 + (length S - length (fst (snd x))), x) #
       finditer_from code_block_pattern (0 + (length S - length (fst (snd x)))) (fst x) (fst (snd x))"
    by (rule finditer_from_match)
  moreover have "finditer_from code_block_pattern (0 + (length S - length (fst (snd x)))) (fst x) (fst (snd x)) = []"
  proof -
    have "\<not> prefix (asc ''```'') []" by (simp add: asc_def)
    then have "rmatch code_block_pattern (fst x, [], []) = []"
      by (rule rmatch_code_block_pattern_no)
    then show ?thesis by (simp add: x_def finditer_from_Nil_Nil)
  qed
  ultimately have "finditer_from code_block_pattern 0 None S = [(0, length S, x)]"
    by (simp add: x_def)
  then show ?thesis
    by (simp add: detect_code_blocks_def finditer_def S_def x_def)
qed

lemma content_make_block:
  "content (make_block (s, e, st)) = group_text st 2"
  by (simp add: make_block_def Let_def)

subsection \<open>Commands in the lines of a response\<close>

lemma split_nl_nonempty: "split_nl s \<noteq> []"
  by (induction s) (auto split: list.splits)

lemma split_nl_no_newline: "l \<in> set (split_nl s) \<Longrightarrow> 10 \<notin> set l"
proof (induction s arbitrary: l)
  case Nil
  then show ?case by simp
next
  case (Cons c cs)
  show ?case
  proof (cases "c = 10")
    case True
    then show ?thesis using Cons by auto
  next
    case False
    obtain x xs where x: "split_nl cs = x # xs"
      using split_nl_nonempty [of cs] by (cases "split_nl cs") auto
    then have "l = c # x \<or> l \<in> set xs" using Cons.prems False by simp
    then show ?thesis using Cons.IH x False by auto
  qed
qed

lemma strip_subset: "set (strip l) \<subseteq> set l"
  by (auto simp: strip_def dest!: set_dropWhileD)

lemma strip_last: "strip l \<noteq> [] \<Longrightarrow> \<not> is_space (last (strip l))"
proof -
  assume ne: "strip l \<noteq> []"
  define d where "d = dropWhile is_space (rev (dropWhile is_space l))"
  have "d \<noteq> []" using ne by (simp add: strip_def d_def)
  then have "\<not> is_space (hd d)" unfolding d_def by (rule hd_dropWhile)
  moreover have "last (strip l) = hd d"
    using \<open>d \<noteq> []\<close> by (simp add: strip_def d_def last_rev)
  ultimately show ?thesis by simp
qed

lemma strip_fixed:
  assumes "x \<noteq> []" "\<not> is_space (hd x)" "\<not> is_space (last x)"
  shows "strip x = x"
proof -
  have "dropWhile is_space x = x" using assms(1,2) by (cases x) simp_all
  moreover have "dropWhile is_space (rev x) = rev x"
    using assms(1,3) by (cases "rev x") (simp_all add: last_rev [symmetric] hd_rev)
  ultimately show ?thesis by (simp add: strip_def)
qed

lemma rmatch_Grp_Rep_Eol:
  "rmatch (Seq (Grp i (Rep c n b)) Eol) (p, s, g) =
     concat (map (\<lambda>k. if drop k s = [] \<or> drop k s = [10]
                       then [(fst (adv k (p, s, g)), drop k s, (i, take k s) # g)]
                       else [])
                 (rep_counts c n b s))"
proof -
  have "rmatch (Seq (Grp i (Rep c n b)) Eol) (p, s, g) =
     concat (map (\<lambda>k. rmatch Eol
        (fst (adv k (p, s, g)), drop k s, (i, take (length s - length (drop k s)) s) # g))
        (rep_counts c n b s))"
    by (simp add: comp_def adv_simps)
  also have "\<dots> = concat (map (\<lambda>k. if drop k s = [] \<or> drop k s = [10]
                       then [(fst (adv k (p, s, g)), drop k s, (i, take k s) # g)]
                       else [])
                 (rep_counts c n b s))"
  proof (rule concat_map_cong_set)
    fix k assume "k \<in> set (rep_counts c n b s)"
    then have "k \<le> length s"
      using rep_counts_le length_takeWhile_le [of "cc_mem c" s] by (metis le_trans)
    then show "rmatch Eol
        (fst (adv k (p, s, g)), drop k s, (i, take (length s - length (drop k s)) s) # g) =
       (if drop k s = [] \<or> drop k s = [10]
        then [(fst (adv k (p, s, g)), drop k s, (i, take k s) # g)] else [])"
      by simp
  qed
  finally show ?thesis .
qed

lemma concat_rev_upt1_last:
  "1 \<le> n \<Longrightarrow> (\<And>k. k < n \<Longrightarrow> f k = []) \<Longrightarrow> concat (map f (rev [1..<Suc n])) = f n"
  by simp

lemma rmatch_dot_plus_eol:
  assumes "10 \<notin> set s"
  shows "rmatch (Seq (Grp i (Rep Dot 1 True)) Eol) (p, s, g) =
     (if s = [] then [] else [(Some (last s), [], (i, s) # g)])"
proof (cases "s = []")
  case True
  then show ?thesis by (simp add: rep_counts_def)
next
  case False
  define f where "f = (\<lambda>k. if drop k s = [] \<or> drop k s = [10]
            then [(fst (adv k (p, s, g)), drop k s, (i, take k s) # g)] else [])"
  have tw: "takeWhile (cc_mem Dot) s = s"
    using assms by (simp add: takeWhile_eq_all_conv) auto
  have rc: "rep_counts Dot 1 True s = rev [1..<Suc (length s)]"
    by (simp add: rep_counts_def tw)
  have "rmatch (Seq (Grp i (Rep Dot 1 True)) Eol) (p, s, g) = concat (map f (rev [1..<Suc (length s)]))"
    unfolding f_def by (simp only: rmatch_Grp_Rep_Eol rc)
  also have "\<dots> = f (length s)"
  proof (rule concat_rev_upt1_last)
    show "1 \<le> length s" using False by (cases s) simp_all
  next
    fix k assume k: "k < length s"
    then have "drop k s \<noteq> []" by simp
    moreover have "drop k s \<noteq> [10]"
    proof
      assume "drop k s = [10]"
      then have "10 \<in> set (drop k s)" by simp
      then show False using assms by (meson in_set_dropD)
    qed
    ultimately show "f k = []" by (simp add: f_def)
  qed
  also have "\<dots> = [(Some (last s), [], (i, s) # g)]"
    using False by (simp add: f_def adv_simps last_conv_nth)
  finally show ?thesis using False by simp
qed

lemma rmatch_spaces_then:
  "\<exists>ms. rmatch (Seq (Rep Space 0 True) R) (p, s, g) =
     rmatch R (fst (adv (length (takeWhile is_space s)) (p, s, g)), dropWhile is_space s, g) @ ms"
proof -
  have cw: "cc_mem Space = is_space" by (rule ext) simp
  have "rmatch (Seq (Rep Space 0 True) R) (p, s, g) =
      concat (map (\<lambda>k. rmatch R (adv k (p, s, g))) (rev [0..<Suc (length (takeWhile is_space s))]))"
    by (simp add: rep_counts_greedy0 comp_def cw del: upt_Suc)
  also have "\<dots> = rmatch R (adv (length (takeWhile is_space s)) (p, s, g)) @
      concat (map (\<lambda>k. rmatch R (adv k (p, s, g))) (rev [0..<length (takeWhile is_space s)]))"
    by simp
  finally show ?thesis
    by (simp add: adv_simps dropWhile_eq_drop [symmetric])
qed

lemma rmatch_spaces_then_Nil:
  "rmatch (Seq (Rep Space 0 True) R) (p, [], g) = rmatch R (p, [], g)"
  by (simp add: rep_counts_def adv_simps)

lemma command_tail_match:
  assumes "10 \<notin> set r" and "dropWhile is_space r \<noteq> []"
  shows "\<exists>ms. rmatch command_tail (p, r, []) =
            (Some (last r), [], [(1, dropWhile is_space r)]) # ms"
proof -
  have nn: "10 \<notin> set (dropWhile is_space r)"
    using assms(1) by (meson set_dropWhileD)
  have l: "last (dropWhile is_space r) = last r"
    using assms(2) takeWhile_dropWhile_id [of is_space r] by (metis last_appendR)
  from rmatch_spaces_then [of "Seq (Grp 1 (Rep Dot 1 True)) Eol" p r "[]"]
  obtain ms where "rmatch command_tail (p, r, []) =
     rmatch (Seq (Grp 1 (Rep Dot 1 True)) Eol)
       (fst (adv (length (takeWhile is_space r)) (p, r, [])), dropWhile is_space r, []) @ ms"
    unfolding command_tail_def by blast
  then show ?thesis
    using assms(2) l by (simp only: rmatch_dot_plus_eol [OF nn]) simp
qed

lemma command_tail_Nil: "rmatch command_tail (p, [], []) = []"
proof -
  have "rmatch (Seq (Grp 1 (Rep Dot 1 True)) Eol) (p, [], []) = []"
    using rmatch_dot_plus_eol [of "[]" 1 p "[]"] by (simp del: rmatch.simps)
  then show ?thesis
    unfolding command_tail_def by (simp only: rmatch_spaces_then_Nil)
qed

lemma rmatch_command_pattern:
  "rmatch command_pattern (None, s, []) =
     (case s of [] \<Rightarrow> []
      | c # r \<Rightarrow> if c = 33 \<or> c = 36 then rmatch command_tail (Some c, r, []) else [])"
  by (cases s) (auto simp: command_pattern_def command_tail_def asc_def adv_simps
        simp del: rmatch.simps(2) rmatch.simps(6))


lemma line_command_explicit:
  assumes "10 \<notin> set line"
  shows "line_command line =
     (case strip line of [] \<Rightarrow> None
      | c # r \<Rightarrow> if (c = 33 \<or> c = 36) \<and> r \<noteq> [] \<and>
                     \<not> is_dangerous_command (dropWhile is_space r)
                  then Some (dropWhile is_space r) else None)"
proof (cases "strip line")
  case Nil
  then show ?thesis
    by (simp add: line_command_def re_match_def rmatch_command_pattern del: rmatch.simps)
next
  case (Cons c r)
  have nr: "10 \<notin> set r"
    using assms strip_subset [of line] Cons by auto
  show ?thesis
  proof (cases "(c = 33 \<or> c = 36) \<and> r \<noteq> []")
    case False
    then show ?thesis
      using Cons command_tail_Nil [of "Some c"]
      by (auto simp: line_command_def re_match_def rmatch_command_pattern simp del: rmatch.simps)
  next
    case True
    have "\<not> is_space (last (strip line))"
      using Cons by (intro strip_last) simp
    then have lr: "\<not> is_space (last r)" using Cons True by simp
    have "last r \<in> set r" using True by simp
    then have ne: "dropWhile is_space r \<noteq> []"
      using lr by (auto simp: dropWhile_eq_Nil_conv)
    have hd: "\<not> is_space (hd (dropWhile is_space r))"
      using ne by (rule hd_dropWhile)
    have "last (dropWhile is_space r) = last r"
      using ne takeWhile_dropWhile_id [of is_space r] by (metis last_appendR)
    then have fixed: "strip (dropWhile is_space r) = dropWhile is_space r"
      using ne hd lr by (intro strip_fixed) simp_all
    from command_tail_match [OF nr ne, of "Some c"] obtain ms where
      "rmatch command_tail (Some c, r, []) =
         (Some (last r), [], [(1, dropWhile is_space r)]) # ms" by blast
    then show ?thesis
      using Cons True ne fixed
      by (auto simp: line_command_def re_match_def rmatch_command_pattern group_text_def
          group_def Let_def simp del: rmatch.simps)
  qed
qed

lemma map_filter_cong_set:
  assumes "\<And>x. x \<in> set xs \<Longrightarrow> f x = g x"
  shows "List.map_filter f xs = List.map_filter g xs"
proof -
  have "filter (\<lambda>x. f x \<noteq> None) xs = filter (\<lambda>x. g x \<noteq> None) xs"
    using assms by (intro filter_cong) auto
  moreover have "map (the \<circ> f) (filter (\<lambda>x. g x \<noteq> None) xs) =
                 map (the \<circ> g) (filter (\<lambda>x. g x \<noteq> None) xs)"
    using assms by (intro map_cong) auto
  ultimately show ?thesis by (simp add: List.map_filter_def)
qed

lemma process_response_commands:
  "snd (snd (process_response response)) =
     List.map_filter
       (\<lambda>line. case strip line of [] \<Rightarrow> None
          | c # r \<Rightarrow> if (c = 33 \<or> c = 36) \<and> r \<noteq> [] \<and>
                         \<not> is_dangerous_command (dropWhile is_space r)
                      then Some (dropWhile is_space r) else None)
       (split_nl response)"
  unfolding process_response_def Let_def snd_conv
  by (rule map_filter_cong_set) (simp add: line_command_explicit split_nl_no_newline)

lemmas danger_eval = rx_eval is_dangerous_command_def dangerous_patterns_def

subsection \<open>Filename directives\<close>

lemma rmatch_name_group:
  assumes "name \<noteq> []" and "\<forall>c \<in> set name. \<not> is_space c"
    and "rest = [] \<or> is_space (hd rest)"
  shows "\<exists>zs. rmatch (Grp 1 (Rep NonSpace 1 True)) (p, name @ rest, g) =
           (Some (last name), rest, (1, name) # g) # zs"
proof -
  have tw: "takeWhile (cc_mem NonSpace) (name @ rest) = name"
  proof (cases rest)
    case Nil
    then show ?thesis using assms(2) by simp
  next
    case (Cons r rs)
    then have "is_space r" using assms(3) by simp
    then show ?thesis using assms(2) Cons by simp
  qed
  have n1: "1 \<le> length name" using assms(1) by (cases name) simp_all
  then have "[1..<Suc (length name)] = [1..<length name] @ [length name]"
    by simp
  then have rc: "rep_counts NonSpace (Suc 0) True (name @ rest) =
      length name # rev [Suc 0..<length name]"
    by (simp add: rep_counts_def tw)
  have "(name @ rest) ! (length name - 1) = last name"
    using assms(1) n1 by (simp add: nth_append last_conv_nth)
  then show ?thesis
    using n1 assms(1) by (simp add: rc adv_simps)
qed

lemma first_after_spaces:
  assumes "\<And>p. \<exists>zs. rmatch R (p, dropWhile is_space s, g) = x # zs"
  shows "\<exists>zs. rmatch (Seq (Rep Space 0 True) R) (p, s, g) = x # zs"
proof -
  from rmatch_spaces_then [of R p s g] obtain ms where
    "rmatch (Seq (Rep Space 0 True) R) (p, s, g) =
       rmatch R (fst (adv (length (takeWhile is_space s)) (p, s, g)), dropWhile is_space s, g) @ ms"
    by blast
  moreover from assms obtain zs where
    "rmatch R (fst (adv (length (takeWhile is_space s)) (p, s, g)), dropWhile is_space s, g) = x # zs"
    by blast
  ultimately show ?thesis by simp
qed

lemma hash_directive_match:
  assumes "name \<noteq> []" and "\<forall>c \<in> set name. \<not> is_space c"
    and "rest = [] \<or> is_space (hd rest)"
  shows "\<exists>zs. rmatch (hd filename_patterns) (None, asc ''# filename: '' @ name @ rest, []) =
           (Some (last name), rest, [(1, name)]) # zs"
proof -
  let ?x = "(Some (last name), rest, [(1, name)])"
  let ?G = "Grp 1 (Rep NonSpace 1 True)"
  have hn: "\<not> is_space (hd name)" using assms(1,2) by (cases name) simp_all
  have d3: "dropWhile is_space (32 # name @ rest) = name @ rest"
    using assms(1) hn by (cases name) (simp_all add: is_space_def)
  have s3: "\<And>p. \<exists>zs. rmatch (Seq (Rep Space 0 True) ?G) (p, 32 # name @ rest, []) = ?x # zs"
    using rmatch_name_group [OF assms, of _ "[]"]
    by (intro first_after_spaces) (simp only: d3)
  have c: "\<And>p. \<exists>zs. rmatch (Seq (Lit (asc '':'')) (Seq (Rep Space 0 True) ?G))
              (p, 58 # 32 # name @ rest, []) = ?x # zs"
    using s3 rmatch_Lit_Seq_append [of "asc '':''" "Seq (Rep Space 0 True) ?G" _ "32 # name @ rest" "[]"]
    by (simp add: asc_def del: rmatch.simps)
  have d2: "dropWhile is_space (58 # 32 # name @ rest) = 58 # 32 # name @ rest"
    by (simp add: is_space_def)
  have s2: "\<And>p. \<exists>zs. rmatch (Seq (Rep Space 0 True) (Seq (Lit (asc '':'')) (Seq (Rep Space 0 True) ?G)))
              (p, 58 # 32 # name @ rest, []) = ?x # zs"
    using c by (intro first_after_spaces) (simp only: d2)
  have f: "\<And>p. \<exists>zs. rmatch (Seq (Lit (asc ''filename''))
                (Seq (Rep Space 0 True) (Seq (Lit (asc '':'')) (Seq (Rep Space 0 True) ?G))))
              (p, asc ''filename'' @ 58 # 32 # name @ rest, []) = ?x # zs"
    using s2 rmatch_Lit_Seq_append [of "asc ''filename''" _ _ "58 # 32 # name @ rest" "[]"]
    by (simp add: asc_def del: rmatch.simps)
  have d1: "dropWhile is_space (32 # asc ''filename'' @ 58 # 32 # name @ rest) =
              asc ''filename'' @ 58 # 32 # name @ rest"
    by (simp add: is_space_def asc_def)
  have s1: "\<And>p. \<exists>zs. rmatch (Seq (Rep Space 0 True) (Seq (Lit (asc ''filename''))
                (Seq (Rep Space 0 True) (Seq (Lit (asc '':'')) (Seq (Rep Space 0 True) ?G)))))
              (p, 32 # asc ''filename'' @ 58 # 32 # name @ rest, []) = ?x # zs"
    using f by (intro first_after_spaces) (simp only: d1)
  have alt: "\<And>R s. rmatch (Seq (Alt (Lit (asc ''//'')) (Lit (asc ''#''))) R) (None, 35 # s, []) =
      rmatch R (Some 35, s, [])"
    by (subst rmatch.simps(3)) (simp add: adv_simps asc_def del: rmatch.simps(3))
  have shape: "asc ''# filename: '' @ name @ rest =
      35 # 32 # asc ''filename'' @ 58 # 32 # name @ rest"
    by (simp add: asc_def)
  have pat: "hd filename_patterns =
      Seq (Alt (Lit (asc ''//'')) (Lit (asc ''#'')))
        (Seq (Rep Space 0 True) (Seq (Lit (asc ''filename''))
          (Seq (Rep Space 0 True) (Seq (Lit (asc '':'')) (Seq (Rep Space 0 True) ?G)))))"
    by (simp add: filename_patterns_def)
  show ?thesis
    using s1 [of "Some 35"] by (simp only: pat shape alt)
qed

lemma hash_directive_found:
  assumes "name \<noteq> []" and "\<forall>c \<in> set name. \<not> is_space c"
    and "rest = [] \<or> is_space (hd rest)"
  shows "filename_directive filename_patterns (asc ''# filename: '' @ name @ rest) = Some name"
proof -
  from hash_directive_match [OF assms] obtain zs where
    m: "rmatch (hd filename_patterns) (None, asc ''# filename: '' @ name @ rest, []) =
          (Some (last name), rest, [(1, name)]) # zs" by blast
  have shape: "asc ''# filename: '' @ name @ rest = 35 # (asc '' filename: '' @ name @ rest)"
    by (simp add: asc_def)
  have "re_search (hd filename_patterns) (asc ''# filename: '' @ name @ rest) =
          Some (Some (last name), rest, [(1, name)])"
    using m unfolding re_search_def shape by simp
  moreover obtain ps where "filename_patterns = hd filename_patterns # ps"
    by (simp add: filename_patterns_def)
  ultimately have "filename_directive filename_patterns (asc ''# filename: '' @ name @ rest) =
      Some (group_text (Some (last name), rest, [(1, name)]) 1)"
    by (metis filename_directive.simps(2) option.simps(5))
  then show ?thesis by (simp add: group_text_def group_def)
qed

lemma search_from_hit:
  "rmatch r (p, s, []) = x # zs \<Longrightarrow> search_from r p s = Some x"
  by (cases s) simp_all

lemma search_from_none:
  "(\<And>k p'. k \<le> length s \<Longrightarrow> rmatch r (p', drop k s, []) = []) \<Longrightarrow> search_from r p s = None"
proof (induction s arbitrary: p)
  case Nil
  then show ?case using Nil [of 0 p] by simp
next
  case (Cons c cs)
  have here: "rmatch r (p, c # cs, []) = []" using Cons.prems [of 0 p] by simp
  have "search_from r (Some c) cs = None"
  proof (rule Cons.IH)
    fix k p' assume "k \<le> length cs"
    then show "rmatch r (p', drop k cs, []) = []"
      using Cons.prems [of "Suc k" p'] by simp
  qed
  then show ?case using here by simp
qed

lemma search_from_skip:
  "(\<And>k p'. k < length pre \<Longrightarrow> rmatch r (p', drop k pre @ s, []) = []) \<Longrightarrow>
     search_from r p (pre @ s) = search_from r (if pre = [] then p else Some (last pre)) s"
proof (induction pre arbitrary: p)
  case Nil
  then show ?case by simp
next
  case (Cons c cs)
  have here: "rmatch r (p, c # cs @ s, []) = []" using Cons.prems [of 0 p] by simp
  have "search_from r (Some c) (cs @ s) =
        search_from r (if cs = [] then Some c else Some (last cs)) s"
  proof (rule Cons.IH)
    fix k p' assume "k < length cs"
    then show "rmatch r (p', drop k cs @ s, []) = []"
      using Cons.prems [of "Suc k" p'] by simp
  qed
  then show ?case using here by simp
qed

lemma rmatch_Alt_Lit_Seq_no:
  "\<not> prefix a s \<Longrightarrow> \<not> prefix b s \<Longrightarrow> rmatch (Seq (Alt (Lit a) (Lit b)) R) (p, s, g) = []"
  by (subst rmatch.simps(3)) simp

lemma not_prefix_hd: "l \<noteq> [] \<Longrightarrow> s \<noteq> [] \<Longrightarrow> hd s \<noteq> hd l \<Longrightarrow> \<not> prefix l s"
  by (cases l; cases s) auto

lemma drop_in_pre_hd:
  "k < length pre \<Longrightarrow> drop k pre @ s \<noteq> [] \<and> hd (drop k pre @ s) \<in> set pre"
  by (metis Cons_nth_drop_Suc append_Cons hd_Cons_tl list.distinct(1) list.sel(1) nth_mem)

lemma dropWhile_spaces:
  "list_all is_space ws \<Longrightarrow> t \<noteq> [] \<Longrightarrow> \<not> is_space (hd t) \<Longrightarrow> dropWhile is_space (ws @ t) = t"
  by (cases t) (simp_all add: list_all_iff dropWhile_append2)

lemma directive_tail_first:
  assumes ws: "list_all is_space ws1" "list_all is_space ws2" "list_all is_space ws3"
    and nm: "name \<noteq> []" "\<not> is_space (hd name)"
    and G: "\<And>p. \<exists>zs. rmatch G (p, name @ rest, g) = x # zs"
  shows "\<exists>zs. rmatch (Seq (Rep Space 0 True) (Seq (Lit (asc ''filename''))
              (Seq (Rep Space 0 True) (Seq (Lit (asc '':'')) (Seq (Rep Space 0 True) G)))))
            (p, ws1 @ asc ''filename'' @ ws2 @ asc '':'' @ ws3 @ name @ rest, g) = x # zs"
proof -
  have d3: "dropWhile is_space (ws3 @ name @ rest) = name @ rest"
    using ws(3) nm by (intro dropWhile_spaces) simp_all
  have s3: "\<And>p. \<exists>zs. rmatch (Seq (Rep Space 0 True) G) (p, ws3 @ name @ rest, g) = x # zs"
    using G by (intro first_after_spaces) (simp only: d3)
  have c: "\<And>p. \<exists>zs. rmatch (Seq (Lit (asc '':'')) (Seq (Rep Space 0 True) G))
              (p, asc '':'' @ ws3 @ name @ rest, g) = x # zs"
  proof -
    fix p
    have "asc '':'' \<noteq> []" by (simp add: asc_def)
    then have e: "rmatch (Seq (Lit (asc '':'')) (Seq (Rep Space 0 True) G))
              (p, asc '':'' @ ws3 @ name @ rest, g) =
            rmatch (Seq (Rep Space 0 True) G) (Some (last (asc '':'')), ws3 @ name @ rest, g)"
      by (rule rmatch_Lit_Seq_append)
    show "\<exists>zs. rmatch (Seq (Lit (asc '':'')) (Seq (Rep Space 0 True) G))
              (p, asc '':'' @ ws3 @ name @ rest, g) = x # zs"
      unfolding e by (rule s3)
  qed
  have d2: "dropWhile is_space (ws2 @ asc '':'' @ ws3 @ name @ rest) = asc '':'' @ ws3 @ name @ rest"
    using ws(2) by (intro dropWhile_spaces) (simp_all add: asc_def is_space_def)
  have s2: "\<And>p. \<exists>zs. rmatch (Seq (Rep Space 0 True) (Seq (Lit (asc '':'')) (Seq (Rep Space 0 True) G)))
              (p, ws2 @ asc '':'' @ ws3 @ name @ rest, g) = x # zs"
    using c by (intro first_after_spaces) (simp only: d2)
  have f: "\<And>p. \<exists>zs. rmatch (Seq (Lit (asc ''filename''))
                (Seq (Rep Space 0 True) (Seq (Lit (asc '':'')) (Seq (Rep Space 0 True) G))))
              (p, asc ''filename'' @ ws2 @ asc '':'' @ ws3 @ name @ rest, g) = x # zs"
  proof -
    fix p
    have "asc ''filename'' \<noteq> []" by (simp add: asc_def)
    then have e: "rmatch (Seq (Lit (asc ''filename''))
                (Seq (Rep Space 0 True) (Seq (Lit (asc '':'')) (Seq (Rep Space 0 True) G))))
              (p, asc ''filename'' @ ws2 @ asc '':'' @ ws3 @ name @ rest, g) =
            rmatch (Seq (Rep Space 0 True) (Seq (Lit (asc '':'')) (Seq (Rep Space 0 True) G)))
              (Some (last (asc ''filename'')), ws2 @ asc '':'' @ ws3 @ name @ rest, g)"
      by (rule rmatch_Lit_Seq_append)
    show "\<exists>zs. rmatch (Seq (Lit (asc ''filename''))
                (Seq (Rep Space 0 True) (Seq (Lit (asc '':'')) (Seq (Rep Space 0 True) G))))
              (p, asc ''filename'' @ ws2 @ asc '':'' @ ws3 @ name @ rest, g) = x # zs"
      unfolding e by (rule s2)
  qed
  have d1: "dropWhile is_space (ws1 @ asc ''filename'' @ ws2 @ asc '':'' @ ws3 @ name @ rest) =
              asc ''filename'' @ ws2 @ asc '':'' @ ws3 @ name @ rest"
    using ws(1) by (intro dropWhile_spaces) (simp_all add: asc_def is_space_def)
  show ?thesis
    using f by (intro first_after_spaces) (simp only: d1)
qed

lemma closer_first:
  assumes nm: "name \<noteq> []" "\<forall>c \<in> set name. \<not> is_space c"
    and ws: "ws4 \<noteq> []" "list_all is_space ws4"
    and cl: "closer \<noteq> []" "\<not> is_space (hd closer)"
  shows "\<exists>zs. rmatch (Seq (Grp 1 (Rep NonSpace 1 True)) (Seq (Rep Space 0 True) (Lit closer)))
            (p, name @ ws4 @ closer @ rest, g) = (Some (last closer), rest, (1, name) # g) # zs"
proof -
  have "ws4 @ closer @ rest = [] \<or> is_space (hd (ws4 @ closer @ rest))"
    using ws by (cases ws4) (simp_all add: list_all_iff)
  from rmatch_name_group [OF nm this, of p g] obtain ys where
    g1: "rmatch (Grp 1 (Rep NonSpace 1 True)) (p, name @ ws4 @ closer @ rest, g) =
          (Some (last name), ws4 @ closer @ rest, (1, name) # g) # ys" by blast
  have d: "dropWhile is_space (ws4 @ closer @ rest) = closer @ rest"
    using ws(2) cl by (intro dropWhile_spaces) simp_all
  have "\<And>q. \<exists>zs. rmatch (Lit closer) (q, dropWhile is_space (ws4 @ closer @ rest), (1, name) # g) =
           (Some (last closer), rest, (1, name) # g) # zs"
  proof -
    fix q
    have "rmatch (Lit closer) (q, closer @ rest, (1, name) # g) =
        (if prefix closer (closer @ rest)
         then [(Some (last closer), drop (length closer) (closer @ rest), (1, name) # g)] else [])"
      using cl(1) by (rule rmatch_Lit_nonempty)
    then show "\<exists>zs. rmatch (Lit closer) (q, dropWhile is_space (ws4 @ closer @ rest), (1, name) # g) =
           (Some (last closer), rest, (1, name) # g) # zs"
      unfolding d by (simp del: rmatch.simps)
  qed
  then have "\<exists>zs. rmatch (Seq (Rep Space 0 True) (Lit closer))
        (Some (last name), ws4 @ closer @ rest, (1, name) # g) =
           (Some (last closer), rest, (1, name) # g) # zs"
    by (rule first_after_spaces)
  then obtain zs where "rmatch (Seq (Rep Space 0 True) (Lit closer))
        (Some (last name), ws4 @ closer @ rest, (1, name) # g) =
           (Some (last closer), rest, (1, name) # g) # zs" by blast
  then show ?thesis
    using g1 by (subst rmatch.simps(3)) (simp del: rmatch.simps)
qed

lemma filename_patterns_list:
  "filename_patterns =
    [Seq (Alt (Lit (asc ''//'')) (Lit (asc ''#'')))
       (Seq (Rep Space 0 True) (Seq (Lit (asc ''filename''))
         (Seq (Rep Space 0 True) (Seq (Lit (asc '':'')) (Seq (Rep Space 0 True)
           (Grp 1 (Rep NonSpace 1 True))))))),
     Seq (Lit (asc ''/*''))
       (Seq (Rep Space 0 True) (Seq (Lit (asc ''filename''))
         (Seq (Rep Space 0 True) (Seq (Lit (asc '':'')) (Seq (Rep Space 0 True)
           (Seq (Grp 1 (Rep NonSpace 1 True))
              (Seq (Rep Space 0 True) (Lit (asc ''*/'')))))))))  ,
     Seq (Lit (asc ''<!--''))
       (Seq (Rep Space 0 True) (Seq (Lit (asc ''filename''))
         (Seq (Rep Space 0 True) (Seq (Lit (asc '':'')) (Seq (Rep Space 0 True)
           (Seq (Grp 1 (Rep NonSpace 1 True))
              (Seq (Rep Space 0 True) (Lit (asc ''-->'')))))))))]"
  by (simp add: filename_patterns_def)

lemma re_search_group:
  assumes "\<And>k p'. k < length pre \<Longrightarrow> rmatch r (p', drop k pre @ s, []) = []"
    and "\<And>p. \<exists>zs. rmatch r (p, s, []) = (q, rest, [(1, name)]) # zs"
  shows "\<exists>m. re_search r (pre @ s) = Some m \<and> group_text m 1 = name"
proof -
  have "search_from r None (pre @ s) =
        search_from r (if pre = [] then None else Some (last pre)) s"
    using assms(1) by (rule search_from_skip)
  moreover obtain zs where
    "rmatch r (if pre = [] then None else Some (last pre), s, []) = (q, rest, [(1, name)]) # zs"
    using assms(2) by blast
  then have "search_from r (if pre = [] then None else Some (last pre)) s =
      Some (q, rest, [(1, name)])"
    by (rule search_from_hit)
  ultimately show ?thesis
    by (simp add: re_search_def group_text_def group_def)
qed

lemma re_search_none_lit:
  assumes "l \<noteq> []" and "\<not> contains l s"
  shows "re_search (Seq (Lit l) R) s = None"
  unfolding re_search_def
proof (rule search_from_none)
  fix k p'
  have "\<not> prefix l (drop k s)" using assms(2) contains_drop by blast
  then show "rmatch (Seq (Lit l) R) (p', drop k s, []) = []"
    by (rule rmatch_Lit_Seq_no)
qed

lemma re_search_none_alt:
  assumes "\<not> contains a s" and "\<not> contains b s"
  shows "re_search (Seq (Alt (Lit a) (Lit b)) R) s = None"
  unfolding re_search_def
proof (rule search_from_none)
  fix k p'
  have "\<not> prefix a (drop k s)" "\<not> prefix b (drop k s)"
    using assms contains_drop by blast+
  then show "rmatch (Seq (Alt (Lit a) (Lit b)) R) (p', drop k s, []) = []"
    by (rule rmatch_Alt_Lit_Seq_no)
qed


lemma contains_single: "contains [c] s \<Longrightarrow> c \<in> set s"
  by (induction s) auto

lemma no_match_in_pre_lit:
  assumes "l \<noteq> []" and "hd l \<notin> set pre" and "k < length pre"
  shows "rmatch (Seq (Lit l) R) (p', drop k pre @ s, []) = []"
proof -
  have "drop k pre @ s \<noteq> []" "hd (drop k pre @ s) \<in> set pre"
    using drop_in_pre_hd [OF assms(3)] by auto
  note h = this
  have "hd (drop k pre @ s) \<noteq> hd l" using h(2) assms(2) by auto
  then have "\<not> prefix l (drop k pre @ s)"
    using assms(1) h(1) by (intro not_prefix_hd)
  then show ?thesis by (rule rmatch_Lit_Seq_no)
qed

lemma no_match_in_pre_alt:
  assumes "a \<noteq> []" "b \<noteq> []" and "hd a \<notin> set pre" "hd b \<notin> set pre" and "k < length pre"
  shows "rmatch (Seq (Alt (Lit a) (Lit b)) R) (p', drop k pre @ s, []) = []"
proof -
  have "drop k pre @ s \<noteq> []" "hd (drop k pre @ s) \<in> set pre"
    using drop_in_pre_hd [OF assms(5)] by auto
  note h = this
  have "hd (drop k pre @ s) \<noteq> hd a" using h(2) assms(3) by auto
  then have na: "\<not> prefix a (drop k pre @ s)"
    using assms(1) h(1) by (intro not_prefix_hd)
  have "hd (drop k pre @ s) \<noteq> hd b" using h(2) assms(4) by auto
  then have nb: "\<not> prefix b (drop k pre @ s)"
    using assms(2) h(1) by (intro not_prefix_hd)
  from na nb show ?thesis by (rule rmatch_Alt_Lit_Seq_no)
qed

lemma rmatch_marker:
  assumes "marker = asc ''#'' \<or> marker = asc ''//''"
  shows "rmatch (Seq (Alt (Lit (asc ''//'')) (Lit (asc ''#''))) R) (p, marker @ s, []) =
         rmatch R (Some (last marker), s, [])"
  using assms
  by (subst rmatch.simps(3)) (auto simp: asc_def adv_simps simp del: rmatch.simps(3))

lemma line_comment_directive:
  assumes ws: "list_all is_space ws1" "list_all is_space ws2" "list_all is_space ws3"
    and nm: "name \<noteq> []" "\<forall>c \<in> set name. \<not> is_space c"
    and rs: "rest = [] \<or> is_space (hd rest)"
    and pre: "35 \<notin> set pre" "47 \<notin> set pre"
    and mk: "marker = asc ''#'' \<or> marker = asc ''//''"
  shows "filename_directive filename_patterns
           (pre @ marker @ ws1 @ asc ''filename'' @ ws2 @ asc '':'' @ ws3 @ name @ rest) = Some name"
proof -
  let ?G = "Grp 1 (Rep NonSpace 1 True)"
  let ?T = "Seq (Rep Space 0 True) (Seq (Lit (asc ''filename''))
         (Seq (Rep Space 0 True) (Seq (Lit (asc '':'')) (Seq (Rep Space 0 True) ?G))))"
  let ?P = "Seq (Alt (Lit (asc ''//'')) (Lit (asc ''#''))) ?T"
  let ?s = "marker @ ws1 @ asc ''filename'' @ ws2 @ asc '':'' @ ws3 @ name @ rest"
  have hn: "\<not> is_space (hd name)" using nm by (cases name) simp_all
  have early: "\<And>k p'. k < length pre \<Longrightarrow> rmatch ?P (p', drop k pre @ ?s, []) = []"
    using pre by (intro no_match_in_pre_alt) (simp_all add: asc_def)
  have tail: "\<And>p. \<exists>zs. rmatch ?T (p, ws1 @ asc ''filename'' @ ws2 @ asc '':'' @ ws3 @ name @ rest, [])
        = (Some (last name), rest, [(1, name)]) # zs"
    using ws nm(1) hn rmatch_name_group [OF nm rs]
    by (intro directive_tail_first) blast+
  have here: "\<And>p. \<exists>zs. rmatch ?P (p, ?s, []) = (Some (last name), rest, [(1, name)]) # zs"
    using tail by (simp only: rmatch_marker [OF mk])
  from re_search_group [of pre ?P ?s, OF early here] obtain m where
    "re_search ?P (pre @ ?s) = Some m" "group_text m 1 = name" by blast
  then show ?thesis
    by (simp add: filename_patterns_list)
qed

lemma block_comment_directive:
  assumes ws: "list_all is_space ws1" "list_all is_space ws2" "list_all is_space ws3"
    and nm: "name \<noteq> []" "\<forall>c \<in> set name. \<not> is_space c"
    and w4: "ws4 \<noteq> []" "list_all is_space ws4"
    and pre: "47 \<notin> set pre"
    and c: "c = pre @ asc ''/*'' @ ws1 @ asc ''filename'' @ ws2 @ asc '':'' @ ws3 @ name @
              ws4 @ asc ''*/'' @ rest"
    and no1: "35 \<notin> set c" "\<not> contains (asc ''//'') c"
  shows "filename_directive filename_patterns c = Some name"
proof -
  let ?G = "Seq (Grp 1 (Rep NonSpace 1 True)) (Seq (Rep Space 0 True) (Lit (asc ''*/'')))"
  let ?T = "Seq (Rep Space 0 True) (Seq (Lit (asc ''filename''))
         (Seq (Rep Space 0 True) (Seq (Lit (asc '':'')) (Seq (Rep Space 0 True) ?G))))"
  let ?P = "Seq (Lit (asc ''/*'')) ?T"
  let ?t = "ws1 @ asc ''filename'' @ ws2 @ asc '':'' @ ws3 @ name @ ws4 @ asc ''*/'' @ rest"
  have hn: "\<not> is_space (hd name)" using nm by (cases name) simp_all
  have first: "re_search (Seq (Alt (Lit (asc ''//'')) (Lit (asc ''#'')))
       (Seq (Rep Space 0 True) (Seq (Lit (asc ''filename''))
         (Seq (Rep Space 0 True) (Seq (Lit (asc '':'')) (Seq (Rep Space 0 True)
           (Grp 1 (Rep NonSpace 1 True)))))))) c = None"
    using no1 contains_single [of 35 c] by (intro re_search_none_alt) (auto simp: asc_def)
  have early: "\<And>k p'. k < length pre \<Longrightarrow> rmatch ?P (p', drop k pre @ asc ''/*'' @ ?t, []) = []"
    using pre by (intro no_match_in_pre_lit) (simp_all add: asc_def)
  have cl: "\<And>p. \<exists>zs. rmatch ?G (p, name @ ws4 @ asc ''*/'' @ rest, []) =
        (Some (last (asc ''*/'')), rest, [(1, name)]) # zs"
    using nm w4 by (intro closer_first) (simp_all add: asc_def is_space_def)
  have tail: "\<And>p. \<exists>zs. rmatch ?T (p, ?t, []) = (Some (last (asc ''*/'')), rest, [(1, name)]) # zs"
    using ws nm(1) hn cl by (intro directive_tail_first) blast+
  have ne: "asc ''/*'' \<noteq> []" by (simp add: asc_def)
  have here: "\<And>p. \<exists>zs. rmatch ?P (p, asc ''/*'' @ ?t, []) =
       (Some (last (asc ''*/'')), rest, [(1, name)]) # zs"
    using tail by (simp only: rmatch_Lit_Seq_append [OF ne])
  from re_search_group [of pre ?P "asc ''/*'' @ ?t", OF early here] obtain m where
    "re_search ?P (pre @ asc ''/*'' @ ?t) = Some m" "group_text m 1 = name" by blast
  then show ?thesis
    using first unfolding c by (simp add: filename_patterns_list)
qed

lemma html_comment_directive:
  assumes ws: "list_all is_space ws1" "list_all is_space ws2" "list_all is_space ws3"
    and nm: "name \<noteq> []" "\<forall>c \<in> set name. \<not> is_space c"
    and w4: "ws4 \<noteq> []" "list_all is_space ws4"
    and pre: "60 \<notin> set pre"
    and c: "c = pre @ asc ''<!--'' @ ws1 @ asc ''filename'' @ ws2 @ asc '':'' @ ws3 @ name @
              ws4 @ asc ''-->'' @ rest"
    and no1: "35 \<notin> set c" "\<not> contains (asc ''//'') c" and no2: "\<not> contains (asc ''/*'') c"
  shows "filename_directive filename_patterns c = Some name"
proof -
  let ?G = "Seq (Grp 1 (Rep NonSpace 1 True)) (Seq (Rep Space 0 True) (Lit (asc ''-->'')))"
  let ?T = "Seq (Rep Space 0 True) (Seq (Lit (asc ''filename''))
         (Seq (Rep Space 0 True) (Seq (Lit (asc '':'')) (Seq (Rep Space 0 True) ?G))))"
  let ?P = "Seq (Lit (asc ''<!--'')) ?T"
  let ?t = "ws1 @ asc ''filename'' @ ws2 @ asc '':'' @ ws3 @ name @ ws4 @ asc ''-->'' @ rest"
  have hn: "\<not> is_space (hd name)" using nm by (cases name) simp_all
  have first: "re_search (Seq (Alt (Lit (asc ''//'')) (Lit (asc ''#'')))
       (Seq (Rep Space 0 True) (Seq (Lit (asc ''filename''))
         (Seq (Rep Space 0 True) (Seq (Lit (asc '':'')) (Seq (Rep Space 0 True)
           (Grp 1 (Rep NonSpace 1 True)))))))) c = None"
    using no1 contains_single [of 35 c] by (intro re_search_none_alt) (auto simp: asc_def)
  have second: "re_search (Seq (Lit (asc ''/*''))
       (Seq (Rep Space 0 True) (Seq (Lit (asc ''filename''))
         (Seq (Rep Space 0 True) (Seq (Lit (asc '':'')) (Seq (Rep Space 0 True)
           (Seq (Grp 1 (Rep NonSpace 1 True))
              (Seq (Rep Space 0 True) (Lit (asc ''*/''))))))))) ) c = None"
    using no2 by (intro re_search_none_lit) (simp_all add: asc_def)
  have early: "\<And>k p'. k < length pre \<Longrightarrow> rmatch ?P (p', drop k pre @ asc ''<!--'' @ ?t, []) = []"
    using pre by (intro no_match_in_pre_lit) (simp_all add: asc_def)
  have cl: "\<And>p. \<exists>zs. rmatch ?G (p, name @ ws4 @ asc ''-->'' @ rest, []) =
        (Some (last (asc ''-->'')), rest, [(1, name)]) # zs"
    using nm w4 by (intro closer_first) (simp_all add: asc_def is_space_def)
  have tail: "\<And>p. \<exists>zs. rmatch ?T (p, ?t, []) = (Some (last (asc ''-->'')), rest, [(1, name)]) # zs"
    using ws nm(1) hn cl by (intro directive_tail_first) blast+
  have ne: "asc ''<!--'' \<noteq> []" by (simp add: asc_def)
  have here: "\<And>p. \<exists>zs. rmatch ?P (p, asc ''<!--'' @ ?t, []) =
       (Some (last (asc ''-->'')), rest, [(1, name)]) # zs"
    using tail by (simp only: rmatch_Lit_Seq_append [OF ne])
  from re_search_group [of pre ?P "asc ''<!--'' @ ?t", OF early here] obtain m where
    "re_search ?P (pre @ asc ''<!--'' @ ?t) = Some m" "group_text m 1 = name" by blast
  then show ?thesis
    using first second unfolding c by (simp add: filename_patterns_list)
qed

section \<open>The claims\<close>

text \<open>
  Claim C1. A command that \<open>is_dangerous_command\<close> classifies as dangerous is never in
  the command list \<open>process_response\<close> returns, whatever the response text. Whatever
  the user types and whatever list \<open>handle_commands\<close> is given, it hands no such
  command to the shell: the commands spawned after the call are those spawned before
  it. When the dangerous command is the next candidate, \<open>handle_commands\<close> prints the
  refusal, reads no input, and goes on with the remaining candidates.
\<close>

theorem dangerous_command_never_run:
  "is_dangerous_command s \<Longrightarrow>
     s \<notin> set (snd (snd (process_response response))) \<and>
     (s \<notin> set (spawned w) \<longrightarrow> s \<notin> set (spawned (snd (handle_commands e cmds w)))) \<and>
     handle_commands e (s # cmds) w = handle_commands e cmds (emit (RefusedDangerous s) w)"
proof -
  assume d: "is_dangerous_command s"
  have a: "s \<notin> set (snd (snd (process_response response)))"
    using d process_response_safe by blast
  have b: "s \<notin> set (spawned w) \<longrightarrow> s \<notin> set (spawned (snd (handle_commands e cmds w)))"
    using d handle_commands_spawned [of e cmds w] by auto
  have c: "handle_commands e (s # cmds) w = handle_commands e cmds (emit (RefusedDangerous s) w)"
    using d by simp
  show ?thesis using a b c by blast
qed


theorem dangerous_command_never_run_witness:
  "is_dangerous_command (asc ''rm -rf /'') \<and>
   asc ''rm -rf /'' \<notin> set (snd (snd (process_response (asc ''$ rm -rf /'')))) \<and>
   asc ''rm -rf /'' \<notin> set (spawned demo_world) \<and>
   asc ''rm -rf /'' \<notin>
     set (spawned (snd (handle_commands demo_env [asc ''ls''] demo_world))) \<and>
   handle_commands demo_env [asc ''rm -rf /'', asc ''ls''] demo_world =
     handle_commands demo_env [asc ''ls''] (emit (RefusedDangerous (asc ''rm -rf /'')) demo_world)"
proof -
  have d: "is_dangerous_command (asc ''rm -rf /'')"
    by (simp add: rx_eval is_dangerous_command_def dangerous_patterns_def)
  have n: "asc ''rm -rf /'' \<notin> set (spawned demo_world)"
    by (simp add: demo_world_def)
  show ?thesis
    using d n dangerous_command_never_run
      [OF d, of "asc ''$ rm -rf /''" demo_world demo_env "[asc ''ls'']"]
    by blast
qed

text \<open>
  Claim C5. A fenced block is well formed when its tag consists of word characters
  (it may be empty) and its content has no newline followed by three backticks, the
  closing fence. Writing such a block as three backticks, the tag, a newline, the
  content, a newline and three backticks, and giving that text to
  \<open>detect_code_blocks\<close>, yields exactly one block, and its content is the content
  that was written.
\<close>

theorem code_block_round_trip:
  "list_all is_word tag \<Longrightarrow> \<not> contains (10 # asc ''```'') body \<Longrightarrow>
     map content (detect_code_blocks (asc ''```'' @ tag @ [10] @ body @ [10] @ asc ''```''))
       = [body]"
  using detect_serialized [of tag body]
  by (simp add: content_make_block group_text_def group_def)

theorem code_block_round_trip_witness:
  "list_all is_word (asc ''python'') \<and>
   \<not> contains (10 # asc ''```'') (asc ''print(1)'' @ [10] @ asc ''x = `a`'') \<and>
   map content (detect_code_blocks
     (asc ''```'' @ asc ''python'' @ [10] @ (asc ''print(1)'' @ [10] @ asc ''x = `a`'') @ [10]
        @ asc ''```''))
     = [asc ''print(1)'' @ [10] @ asc ''x = `a`'']"
proof -
  have t: "list_all is_word (asc ''python'')"
    by (simp add: asc_def is_word_ascii)
  have b: "\<not> contains (10 # asc ''```'') (asc ''print(1)'' @ [10] @ asc ''x = `a`'')"
    by (simp add: asc_def)
  show ?thesis using t b code_block_round_trip [OF t b] by simp
qed

text \<open>
  Claim C10. The language of every block \<open>detect_code_blocks\<close> returns consists of
  word characters only, so its lower case, the key \<open>suggest_filename\<close> looks up in
  the extension table, is never \<open>c++\<close>. Every block starts at three backticks that
  are followed by word characters only up to the newline: a fence whose tag has any
  other character before the newline starts no block.
\<close>

theorem block_language_is_word:
  "b \<in> set (detect_code_blocks text) \<Longrightarrow>
     list_all is_word (language b) \<and>
     lower (language b) \<noteq> asc ''c++'' \<and>
     (\<exists>tag rest. list_all is_word tag \<and>
        drop (start b) text = asc ''```'' @ tag @ 10 # rest)"
  using detect_code_blocks_shape [of b "text"] word_tag_not_cpp [of "language b"] by blast

theorem block_language_is_word_witness:
  "\<lparr>language = asc ''py'', content = asc ''x'', start = 0, end_pos = 11,
     is_command = False\<rparr>
     \<in> set (detect_code_blocks (asc ''```'' @ asc ''py'' @ [10] @ asc ''x'' @ [10] @ asc ''```'')) \<and>
   list_all is_word (asc ''py'') \<and>
   lower (asc ''py'') \<noteq> asc ''c++'' \<and>
   (\<exists>tag rest. list_all is_word tag \<and>
      drop 0 (asc ''```'' @ asc ''py'' @ [10] @ asc ''x'' @ [10] @ asc ''```'')
        = asc ''```'' @ tag @ 10 # rest)"
proof -
  have t: "list_all is_word (asc ''py'')"
    by (simp add: asc_def is_word_ascii)
  have b: "\<not> contains (10 # asc ''```'') (asc ''x'')"
    by (simp add: asc_def)
  have m: "\<lparr>language = asc ''py'', content = asc ''x'', start = 0, end_pos = 11,
      is_command = False\<rparr>
      \<in> set (detect_code_blocks (asc ''```'' @ asc ''py'' @ [10] @ asc ''x'' @ [10] @ asc ''```''))"
    using detect_serialized [OF t b]
    by (simp add: make_block_def group_text_def group_def
        lower_def lower_cp_def command_tag_def asc_def)
  show ?thesis using m block_language_is_word [OF m] by simp
qed

text \<open>
  Claim C4, as the code has it. \<open>process_response\<close> looks at every line of the
  response, whether the line lies inside a fenced code block or outside. A line yields
  a command candidate exactly when its stripped text starts with \<open>!\<close> or \<open>$\<close> and
  has at least one more character; the candidate is the rest of the stripped line
  without its leading whitespace, and it is kept unless \<open>is_dangerous_command\<close>
  holds of it.
\<close>

theorem commands_from_every_line:
  "snd (snd (process_response response)) =
     List.map_filter
       (\<lambda>line. case strip line of [] \<Rightarrow> None
          | c # r \<Rightarrow> if (c = 33 \<or> c = 36) \<and> r \<noteq> [] \<and>
                         \<not> is_dangerous_command (dropWhile is_space r)
                      then Some (dropWhile is_space r) else None)
       (split_nl response)"
  by (rule process_response_commands)

theorem commands_from_every_line_witness:
  "snd (snd (process_response (asc ''hello'' @ [10] @ asc ''!  echo hi  '' @ [10] @ asc ''$ rm -rf /'')))
     = [asc ''echo hi'']"
proof -
  have d: "\<not> is_dangerous_command (asc ''echo hi'')" by (simp add: danger_eval)
  have e: "is_dangerous_command (asc ''rm -rf /'')" by (simp add: danger_eval)
  show ?thesis
    using d e commands_from_every_line
      [of "asc ''hello'' @ [10] @ asc ''!  echo hi  '' @ [10] @ asc ''$ rm -rf /''"]
    by (simp add: List.map_filter_simps strip_def is_space_def asc_def)
qed

text \<open>
  The claim as the specification states it fails: in the text below the line
  \<open>$ ls\<close> is the content of the one fenced block, which spans the whole text, and
  the line yields the command \<open>ls\<close>.
\<close>

theorem command_inside_fence_counterexample:
  "detect_code_blocks (asc ''```'' @ asc ''bash'' @ [10] @ asc ''$ ls'' @ [10] @ asc ''```'') =
     [\<lparr>language = asc ''bash'', content = asc ''$ ls'', start = 0, end_pos = 16,
       is_command = False\<rparr>] \<and>
   length (asc ''```'' @ asc ''bash'' @ [10] @ asc ''$ ls'' @ [10] @ asc ''```'') = 16 \<and>
   snd (snd (process_response
     (asc ''```'' @ asc ''bash'' @ [10] @ asc ''$ ls'' @ [10] @ asc ''```''))) = [asc ''ls'']"
proof -
  have t: "list_all is_word (asc ''bash'')"
    by (simp add: asc_def is_word_ascii)
  have b: "\<not> contains (10 # asc ''```'') (asc ''$ ls'')"
    by (simp add: asc_def)
  have blocks: "detect_code_blocks (asc ''```'' @ asc ''bash'' @ [10] @ asc ''$ ls'' @ [10] @ asc ''```'') =
     [\<lparr>language = asc ''bash'', content = asc ''$ ls'', start = 0, end_pos = 16,
       is_command = False\<rparr>]"
    using detect_serialized [OF t b]
    by (simp add: make_block_def group_text_def group_def lower_def lower_cp_def
        command_tag_def asc_def)
  have d: "\<not> is_dangerous_command (asc ''ls'')" by (simp add: danger_eval)
  have cmds: "snd (snd (process_response
     (asc ''```'' @ asc ''bash'' @ [10] @ asc ''$ ls'' @ [10] @ asc ''```''))) = [asc ''ls'']"
    using d
    by (simp add: process_response_commands List.map_filter_simps strip_def is_space_def asc_def)
  show ?thesis using blocks cmds by (simp add: asc_def)
qed

text \<open>
  Claim C9, as the code has it. \<open>suggest_filename\<close> tries the three directive
  patterns in their order (\<open>//\<close> or \<open>#\<close>, then \<open>/* */\<close>, then \<open><!-- -->\<close>), each
  anywhere in the content, and returns what the first pattern that is found captures at
  its leftmost match, whatever the language tag and the clock; no heuristic is
  consulted then. So a comment \<open># filename: name\<close> or \<open>// filename: name\<close> gives
  \<open>name\<close> when no \<open>#\<close> and no \<open>/\<close> comes before it; a comment
  \<open>/* filename: name */\<close> gives \<open>name\<close> when the content has no \<open>#\<close> and no
  \<open>//\<close> and no \<open>/\<close> comes before it; a comment \<open><!-- filename: name -->\<close> gives
  \<open>name\<close> when the content has no \<open>#\<close>, no \<open>//\<close> and no \<open>/*\<close>, and no \<open><\<close>
  comes before it. Whitespace around \<open>filename\<close> and the colon is optional; the name
  has no whitespace. With language \<open>python\<close> and content \<open>def main(): pass\<close> the
  result is \<open>main.py\<close> whatever the clock shows.
\<close>

theorem filename_directive_rule:
  "(filename_directive filename_patterns (content b) = Some name \<longrightarrow>
      suggest_filename now b = name) \<and>
   (list_all is_space ws1 \<and> list_all is_space ws2 \<and> list_all is_space ws3 \<and>
    name \<noteq> [] \<and> list_all (\<lambda>c. \<not> is_space c) name \<and> (rest = [] \<or> is_space (hd rest)) \<and>
    35 \<notin> set pre \<and> 47 \<notin> set pre \<and> (marker = asc ''#'' \<or> marker = asc ''//'') \<and>
    content b = pre @ marker @ ws1 @ asc ''filename'' @ ws2 @ asc '':'' @ ws3 @ name @ rest \<longrightarrow>
      suggest_filename now b = name) \<and>
   (list_all is_space ws1 \<and> list_all is_space ws2 \<and> list_all is_space ws3 \<and>
    name \<noteq> [] \<and> list_all (\<lambda>c. \<not> is_space c) name \<and> ws4 \<noteq> [] \<and> list_all is_space ws4 \<and>
    47 \<notin> set pre \<and> 35 \<notin> set (content b) \<and> \<not> contains (asc ''//'') (content b) \<and>
    content b = pre @ asc ''/*'' @ ws1 @ asc ''filename'' @ ws2 @ asc '':'' @ ws3 @ name @
                  ws4 @ asc ''*/'' @ rest \<longrightarrow>
      suggest_filename now b = name) \<and>
   (list_all is_space ws1 \<and> list_all is_space ws2 \<and> list_all is_space ws3 \<and>
    name \<noteq> [] \<and> list_all (\<lambda>c. \<not> is_space c) name \<and> ws4 \<noteq> [] \<and> list_all is_space ws4 \<and>
    60 \<notin> set pre \<and> 35 \<notin> set (content b) \<and> \<not> contains (asc ''//'') (content b) \<and>
    \<not> contains (asc ''/*'') (content b) \<and>
    content b = pre @ asc ''<!--'' @ ws1 @ asc ''filename'' @ ws2 @ asc '':'' @ ws3 @ name @
                  ws4 @ asc ''-->'' @ rest \<longrightarrow>
      suggest_filename now b = name) \<and>
   suggest_filename now \<lparr>language = asc ''python'', content = asc ''def main(): pass'',
     start = s, end_pos = e, is_command = c\<rparr> = asc ''main.py''"
proof -
  have rule: "\<And>n. filename_directive filename_patterns (content b) = Some n \<Longrightarrow>
      suggest_filename now b = n"
    by (simp add: suggest_filename_def Let_def)
  have a: "filename_directive filename_patterns (content b) = Some name \<longrightarrow>
      suggest_filename now b = name"
    using rule by blast
  have l: "list_all is_space ws1 \<and> list_all is_space ws2 \<and> list_all is_space ws3 \<and>
    name \<noteq> [] \<and> list_all (\<lambda>c. \<not> is_space c) name \<and> (rest = [] \<or> is_space (hd rest)) \<and>
    35 \<notin> set pre \<and> 47 \<notin> set pre \<and> (marker = asc ''#'' \<or> marker = asc ''//'') \<and>
    content b = pre @ marker @ ws1 @ asc ''filename'' @ ws2 @ asc '':'' @ ws3 @ name @ rest \<longrightarrow>
      suggest_filename now b = name"
  proof
    assume A: "list_all is_space ws1 \<and> list_all is_space ws2 \<and> list_all is_space ws3 \<and>
    name \<noteq> [] \<and> list_all (\<lambda>c. \<not> is_space c) name \<and> (rest = [] \<or> is_space (hd rest)) \<and>
    35 \<notin> set pre \<and> 47 \<notin> set pre \<and> (marker = asc ''#'' \<or> marker = asc ''//'') \<and>
    content b = pre @ marker @ ws1 @ asc ''filename'' @ ws2 @ asc '':'' @ ws3 @ name @ rest"
    have "filename_directive filename_patterns
            (pre @ marker @ ws1 @ asc ''filename'' @ ws2 @ asc '':'' @ ws3 @ name @ rest) = Some name"
      using A by (intro line_comment_directive) (simp_all add: list_all_iff)
    moreover have "content b =
        pre @ marker @ ws1 @ asc ''filename'' @ ws2 @ asc '':'' @ ws3 @ name @ rest"
      using A by blast
    ultimately have "filename_directive filename_patterns (content b) = Some name"
      by simp
    then show "suggest_filename now b = name" by (rule rule)
  qed
  have k: "list_all is_space ws1 \<and> list_all is_space ws2 \<and> list_all is_space ws3 \<and>
    name \<noteq> [] \<and> list_all (\<lambda>c. \<not> is_space c) name \<and> ws4 \<noteq> [] \<and> list_all is_space ws4 \<and>
    47 \<notin> set pre \<and> 35 \<notin> set (content b) \<and> \<not> contains (asc ''//'') (content b) \<and>
    content b = pre @ asc ''/*'' @ ws1 @ asc ''filename'' @ ws2 @ asc '':'' @ ws3 @ name @
                  ws4 @ asc ''*/'' @ rest \<longrightarrow>
      suggest_filename now b = name"
  proof
    assume A: "list_all is_space ws1 \<and> list_all is_space ws2 \<and> list_all is_space ws3 \<and>
    name \<noteq> [] \<and> list_all (\<lambda>c. \<not> is_space c) name \<and> ws4 \<noteq> [] \<and> list_all is_space ws4 \<and>
    47 \<notin> set pre \<and> 35 \<notin> set (content b) \<and> \<not> contains (asc ''//'') (content b) \<and>
    content b = pre @ asc ''/*'' @ ws1 @ asc ''filename'' @ ws2 @ asc '':'' @ ws3 @ name @
                  ws4 @ asc ''*/'' @ rest"
    have "filename_directive filename_patterns (content b) = Some name"
    proof (rule block_comment_directive [of ws1 ws2 ws3 name ws4 pre _ rest])
      show "\<forall>c\<in>set name. \<not> is_space c" using A by (simp add: list_all_iff)
    qed (insert A, blast+)
    then show "suggest_filename now b = name" by (rule rule)
  qed
  have h: "list_all is_space ws1 \<and> list_all is_space ws2 \<and> list_all is_space ws3 \<and>
    name \<noteq> [] \<and> list_all (\<lambda>c. \<not> is_space c) name \<and> ws4 \<noteq> [] \<and> list_all is_space ws4 \<and>
    60 \<notin> set pre \<and> 35 \<notin> set (content b) \<and> \<not> contains (asc ''//'') (content b) \<and>
    \<not> contains (asc ''/*'') (content b) \<and>
    content b = pre @ asc ''<!--'' @ ws1 @ asc ''filename'' @ ws2 @ asc '':'' @ ws3 @ name @
                  ws4 @ asc ''-->'' @ rest \<longrightarrow>
      suggest_filename now b = name"
  proof
    assume A: "list_all is_space ws1 \<and> list_all is_space ws2 \<and> list_all is_space ws3 \<and>
    name \<noteq> [] \<and> list_all (\<lambda>c. \<not> is_space c) name \<and> ws4 \<noteq> [] \<and> list_all is_space ws4 \<and>
    60 \<notin> set pre \<and> 35 \<notin> set (content b) \<and> \<not> contains (asc ''//'') (content b) \<and>
    \<not> contains (asc ''/*'') (content b) \<and>
    content b = pre @ asc ''<!--'' @ ws1 @ asc ''filename'' @ ws2 @ asc '':'' @ ws3 @ name @
                  ws4 @ asc ''-->'' @ rest"
    have "filename_directive filename_patterns (content b) = Some name"
    proof (rule html_comment_directive [of ws1 ws2 ws3 name ws4 pre _ rest])
      show "\<forall>c\<in>set name. \<not> is_space c" using A by (simp add: list_all_iff)
    qed (insert A, blast+)
    then show "suggest_filename now b = name" by (rule rule)
  qed
  have m: "suggest_filename now \<lparr>language = asc ''python'', content = asc ''def main(): pass'',
     start = s, end_pos = e, is_command = c\<rparr> = asc ''main.py''"
    by (simp add: suggest_filename_def filename_patterns_def rx_eval lower_def lower_cp_def
        Let_def)
  show ?thesis using a l k h m by blast
qed

theorem filename_directive_rule_witness:
  "suggest_filename 0 \<lparr>language = asc ''html'',
     content = asc ''let x = 1;'' @ [10] @ asc ''// filename :b.js'' @ [10] @ asc ''let y;'',
     start = 0, end_pos = 0, is_command = False\<rparr> = asc ''b.js'' \<and>
   suggest_filename 0 \<lparr>language = asc ''bash'',
     content = asc ''body {}'' @ [10] @ asc ''/* filename: a.css */'',
     start = 0, end_pos = 0, is_command = False\<rparr> = asc ''a.css'' \<and>
   suggest_filename 0 \<lparr>language = asc ''python'', content = asc ''def main(): pass'',
     start = 0, end_pos = 0, is_command = False\<rparr> = asc ''main.py''"
proof -
  have n: "\<not> contains (asc ''//'') (asc ''body {}'' @ [10] @ asc ''/* filename: a.css */'')"
    by (simp add: asc_def)
  show ?thesis
    using n
      filename_directive_rule
        [of "\<lparr>language = asc ''html'',
               content = asc ''let x = 1;'' @ [10] @ asc ''// filename :b.js'' @ [10] @ asc ''let y;'',
               start = 0, end_pos = 0, is_command = False\<rparr>"
            "asc ''b.js''" 0 "asc '' ''" "asc '' ''" "[]" "[10] @ asc ''let y;''"
            "asc ''let x = 1;'' @ [10]" "asc ''//''" "[]" 0 0 False]
      filename_directive_rule
        [of "\<lparr>language = asc ''bash'',
               content = asc ''body {}'' @ [10] @ asc ''/* filename: a.css */'',
               start = 0, end_pos = 0, is_command = False\<rparr>"
            "asc ''a.css''" 0 "asc '' ''" "[]" "asc '' ''" "[]"
            "asc ''body {}'' @ [10]" "[]" "asc '' ''" 0 0 False]
    by (simp add: asc_def is_space_def)
qed

text \<open>
  The claim as the specification states it fails. The content below has the directive
  comment \<open># filename: real.py\<close> on its second line, which alone gives \<open>real.py\<close>;
  the first pattern is found earlier, at \<open>//filename:8080/x\<close> inside a URL, and
  \<open>suggest_filename\<close> returns \<open>8080/x\<close>.
\<close>

theorem filename_directive_counterexample:
  "filename_directive filename_patterns (asc ''# filename: real.py'') = Some (asc ''real.py'') \<and>
   suggest_filename 0 \<lparr>language = asc ''python'',
     content = asc ''u = 1 # see http://filename:8080/x'' @ [10] @ asc ''# filename: real.py'',
     start = 0, end_pos = 0, is_command = False\<rparr> = asc ''8080/x''"
  by (simp add: suggest_filename_def filename_patterns_def rx_eval Let_def)

end
